theory Spec2Isabelle
  imports Complex_Main "HOL-Library.Sublist"
begin

section \<open>Shared data: callers, failures, JavaScript helpers\<close>

text \<open>
  Document identifiers (ObjectIds) are compared by value everywhere in the routes
  (\<open>toString() === toString()\<close>, \<open>equals\<close>, the array \<open>includes\<close> of the
  document layer), so an identifier is a natural number here.  The persistence layer
  is the store passed in and returned: \<open>findById\<close> is a lookup in a map,
  \<open>save\<close> writes the document back under its identifier.
\<close>

type_synonym objectId = nat

text \<open>\<open>req.user\<close>: the authenticated caller, with its \<open>_id\<close> and its role.\<close>

record caller =
  uid :: objectId
  role :: string

text \<open>\<open>res.status(s).json({ message: m })\<close>.\<close>

datatype failure = Failure (status: nat) (message: string)

text \<open>Truthiness of an optional string: \<open>undefined\<close> and \<open>''\<close> are falsy.\<close>

fun truthy :: "string option \<Rightarrow> bool" where
  "truthy None = False"
| "truthy (Some s) = (s \<noteq> [])"

text \<open>\<open>String.prototype.toLowerCase\<close> on ASCII text.\<close>

definition lower_char :: "char \<Rightarrow> char" where
  "lower_char c =
     (case map_of (zip ''ABCDEFGHIJKLMNOPQRSTUVWXYZ'' ''abcdefghijklmnopqrstuvwxyz'') c of
        Some d \<Rightarrow> d
      | None \<Rightarrow> c)"

definition toLowerCase :: "string \<Rightarrow> string" where
  "toLowerCase s = map lower_char s"

text \<open>\<open>Array.prototype.join\<close>.\<close>

fun join :: "string \<Rightarrow> string list \<Rightarrow> string" where
  "join sep [] = []"
| "join sep [x] = x"
| "join sep (x # y # ys) = x @ sep @ join sep (y # ys)"

subsection \<open>JavaScript numbers\<close>

text \<open>
  A number is a finite binary64 value, read as the rational it denotes, an infinity,
  or NaN.
\<close>

datatype js_number = Num rat | PosInfinity | NegInfinity | NaN

text \<open>\<open>x >= y\<close>: false as soon as one side is NaN.\<close>

fun js_ge :: "js_number \<Rightarrow> js_number \<Rightarrow> bool" where
  "js_ge NaN y = False"
| "js_ge x NaN = False"
| "js_ge PosInfinity y = True"
| "js_ge x NegInfinity = True"
| "js_ge NegInfinity y = False"
| "js_ge x PosInfinity = False"
| "js_ge (Num a) (Num b) = (b \<le> a)"

text \<open>Rounding a rational to an integer, to nearest, ties to even.\<close>

definition round_half_even :: "rat \<Rightarrow> int" where
  "round_half_even x =
    (let f = \<lfloor>x\<rfloor>; d = x - of_int f in
     if d < 1 / 2 then f
     else if 1 / 2 < d then f + 1
     else if even f then f else f + 1)"

text \<open>
  The exponent of the last place of a magnitude \<open>a\<close> in binary64: the least
  \<open>e\<close> from \<open>-1074\<close> on for which the significand \<open>a / 2^e\<close> stays below \<open>2^53\<close>,
  and at most \<open>971\<close>, the exponent of the largest finite values.
\<close>

function b64_exponent :: "rat \<Rightarrow> int \<Rightarrow> int" where
  "b64_exponent a e =
    (if a < 2 ^ 53 * 2 powi e \<or> 971 \<le> e then e else b64_exponent a (e + 1))"
  by pat_completeness auto
termination
  by (relation "measure (\<lambda>(a, e). nat (971 - e))") auto

text \<open>
  The binary64 value of an exact result \<open>q\<close>: the significand is rounded to nearest,
  ties to even, and a result of magnitude \<open>2^1024\<close> or more is an infinity.
\<close>

definition round_b64 :: "rat \<Rightarrow> js_number" where
  "round_b64 q =
    (let a = \<bar>q\<bar>;
         e = b64_exponent a (- 1074);
         v = of_int (round_half_even (a / 2 powi e)) * 2 powi e
     in if 2 ^ 1024 \<le> v then (if 0 < q then PosInfinity else NegInfinity)
        else Num (sgn q * v))"

text \<open>\<open>x + 1\<close> (and so \<open>x += 1\<close>) on numbers.\<close>

fun js_add_one :: "js_number \<Rightarrow> js_number" where
  "js_add_one (Num q) = round_b64 (q + 1)"
| "js_add_one PosInfinity = PosInfinity"
| "js_add_one NegInfinity = NegInfinity"
| "js_add_one NaN = NaN"

section \<open>Assignments and submissions\<close>

text \<open>
  A stored submission: the object built by the submit route, with the identifier the
  document layer gives the subdocument, and the grade and feedback set later.  The
  locator and display name are \<open>req.body.url\<close> when no file is attached, so they may
  be \<open>undefined\<close>.
\<close>

record submission =
  sub_id :: objectId
  student :: objectId
  submittedAt :: nat
  fileUrl :: "string option"
  fileName :: "string option"
  sub_fileType :: string
  sub_comments :: string
  grade :: "int option"
  feedback :: "string option"

record assignment =
  assignment_title :: string
  description :: string
  fileType :: string
  dueDate :: nat
  maxFileSize :: nat
  allowedExtensions :: "string list"
  isActive :: bool
  createdBy :: objectId
  submissions :: "submission list"

type_synonym assignments = "objectId \<rightharpoonup> assignment"

text \<open>\<open>req.file\<close> as the upload middleware leaves it.\<close>

record upload =
  originalname :: string
  filename :: string

text \<open>
  The file validation of the submit route (``Validate file type if specified''):
  \<open>None\<close> when the request passes, the failure response otherwise.
  \<open>extname\<close> is \<open>path.extname\<close> of the platform.
\<close>

definition file_check :: "(string \<Rightarrow> string) \<Rightarrow> assignment \<Rightarrow> upload option \<Rightarrow> failure option" where
  "file_check extname a file =
    (if fileType a \<noteq> ''any'' \<and> fileType a \<noteq> ''url'' then
       (case file of
          None \<Rightarrow> Some (Failure 400 ''File is required for this assignment'')
        | Some f \<Rightarrow>
            let fileExtension = toLowerCase (extname (originalname f)) in
            if length (allowedExtensions a) > 0 \<and>
               fileExtension \<notin> set (allowedExtensions a)
            then Some (Failure 400 (''File type not allowed. Allowed types: '' @
                                     join '', '' (allowedExtensions a)))
            else None)
     else None)"

text \<open>The submission object the route builds, as stored in the sequence.\<close>

definition new_submission ::
  "(string \<Rightarrow> string) \<Rightarrow> nat \<Rightarrow> objectId \<Rightarrow> caller \<Rightarrow> upload option \<Rightarrow>
   string option \<Rightarrow> string option \<Rightarrow> submission" where
  "new_submission extname now oid u file url cmts =
    \<lparr> sub_id = oid, student = uid u, submittedAt = now,
      fileUrl = (case file of
                   Some f \<Rightarrow> Some (''/uploads/assignments/'' @ filename f) | None \<Rightarrow> url),
      fileName = (case file of Some f \<Rightarrow> Some (originalname f) | None \<Rightarrow> url),
      sub_fileType = (case file of Some f \<Rightarrow> extname (originalname f) | None \<Rightarrow> ''url''),
      sub_comments = (if truthy cmts then the cmts else []),
      grade = None, feedback = None \<rparr>"

text \<open>
  \<open>POST /:id/submit\<close>.  \<open>now\<close> is \<open>new Date()\<close> and \<open>oid\<close> the identifier
  generated for the pushed subdocument; \<open>url\<close> and \<open>cmts\<close> are \<open>req.body.url\<close> and
  \<open>req.body.comments\<close>.  The result is the response and the store after the request.
\<close>

definition submit ::
  "(string \<Rightarrow> string) \<Rightarrow> nat \<Rightarrow> objectId \<Rightarrow> caller \<Rightarrow> objectId \<Rightarrow> upload option \<Rightarrow>
   string option \<Rightarrow> string option \<Rightarrow> assignments \<Rightarrow> (failure + submission) \<times> assignments" where
  "submit extname now oid u aid file url cmts db =
    (if role u = ''admin'' then (Inl (Failure 403 ''Admins cannot submit assignments''), db)
     else case db aid of
       None \<Rightarrow> (Inl (Failure 404 ''Assignment not found''), db)
     | Some a \<Rightarrow>
       if \<not> isActive a then (Inl (Failure 403 ''Assignment is not active''), db)
       else if find (\<lambda>sub. student sub = uid u) (submissions a) \<noteq> None
         then (Inl (Failure 400 ''You have already submitted this assignment''), db)
       else (case file_check extname a file of
         Some e \<Rightarrow> (Inl e, db)
       | None \<Rightarrow>
         if fileType a = ''url'' \<and> \<not> truthy url
         then (Inl (Failure 400 ''URL is required for this assignment''), db)
         else
           let sub = new_submission extname now oid u file url cmts
           in (Inr sub, db(aid \<mapsto> a\<lparr>submissions := submissions a @ [sub]\<rparr>))))"

text \<open>
  A run of submit requests against the store, each with its own time, generated
  identifier, caller, assignment and payload.
\<close>

type_synonym submit_request =
  "nat \<times> objectId \<times> caller \<times> objectId \<times> upload option \<times> string option \<times> string option"

fun submit_all :: "(string \<Rightarrow> string) \<Rightarrow> submit_request list \<Rightarrow> assignments \<Rightarrow> assignments" where
  "submit_all extname [] db = db"
| "submit_all extname ((now, oid, u, aid, file, url, cmts) # rs) db =
     submit_all extname rs (snd (submit extname now oid u aid file url cmts db))"

text \<open>At most one submission per student reference.\<close>

definition one_per_student :: "assignment \<Rightarrow> bool" where
  "one_per_student a = distinct (map student (submissions a))"

text \<open>
  Modelled from the spec: the \<open>adminAuth\<close> middleware (\<open>middleware/auth\<close>), which
  guards the grade route.  The spec gives it as ``administrative authority only'': a
  caller without the administrative role is refused with Forbidden before the route
  body runs, and an administrative caller is let through.
\<close>

definition adminAuth :: "caller \<Rightarrow> failure option" where
  "adminAuth u = (if role u = ''admin'' then None else Some (Failure 403 ''Access denied''))"

text \<open>
  Assignment to a field of the subdocument that \<open>submissions.id(...)\<close> returned: the
  first element with that identifier is changed where it stands.
\<close>

fun replace_first :: "('a \<Rightarrow> bool) \<Rightarrow> 'a \<Rightarrow> 'a list \<Rightarrow> 'a list" where
  "replace_first P y [] = []"
| "replace_first P y (x # xs) = (if P x then y # xs else x # replace_first P y xs)"

text \<open>
  \<open>PUT /:id/submissions/:submissionId/grade\<close>, with \<open>g\<close> and \<open>f\<close> the grade and
  feedback of the request body.
\<close>

definition grade_submission ::
  "caller \<Rightarrow> objectId \<Rightarrow> objectId \<Rightarrow> int option \<Rightarrow> string option \<Rightarrow> assignments \<Rightarrow>
   (failure + submission) \<times> assignments" where
  "grade_submission u aid sid g f db =
    (case adminAuth u of
       Some e \<Rightarrow> (Inl e, db)
     | None \<Rightarrow>
       (case db aid of
          None \<Rightarrow> (Inl (Failure 404 ''Assignment not found''), db)
        | Some a \<Rightarrow>
          (case find (\<lambda>sub. sub_id sub = sid) (submissions a) of
             None \<Rightarrow> (Inl (Failure 404 ''Submission not found''), db)
           | Some sub \<Rightarrow>
               let sub' = sub\<lparr>grade := g, feedback := f\<rparr>;
                   a' = a\<lparr>submissions :=
                            replace_first (\<lambda>sub. sub_id sub = sid) sub' (submissions a)\<rparr>
               in (Inr sub', db(aid \<mapsto> a')))))"

section \<open>Courses\<close>

text \<open>
  The capacity is the number stored in \<open>maxStudents\<close>; the routes that create and
  update a course store the number of the request as it comes.
\<close>

record course =
  course_title :: string
  code :: string
  instructor :: objectId
  students :: "objectId list"
  maxStudents :: js_number
  course_isActive :: bool

type_synonym courses = "objectId \<rightharpoonup> course"

text \<open>\<open>POST /:id/enroll\<close> of the courses router.\<close>

definition enroll :: "caller \<Rightarrow> objectId \<Rightarrow> courses \<Rightarrow> (failure + string) \<times> courses" where
  "enroll u cid db =
    (case db cid of
       None \<Rightarrow> (Inl (Failure 404 ''Course not found''), db)
     | Some c \<Rightarrow>
       if \<not> course_isActive c then (Inl (Failure 400 ''Course is not active''), db)
       else if uid u \<in> set (students c)
         then (Inl (Failure 400 ''Already enrolled in this course''), db)
       else if js_ge (Num (of_nat (length (students c)))) (maxStudents c)
         then (Inl (Failure 400 ''Course is full''), db)
       else (Inr ''Enrolled successfully'', db(cid \<mapsto> c\<lparr>students := students c @ [uid u]\<rparr>)))"

text \<open>A run of enroll requests, each by a caller on a course.\<close>

fun enroll_all :: "(caller \<times> objectId) list \<Rightarrow> courses \<Rightarrow> courses" where
  "enroll_all [] db = db"
| "enroll_all ((u, cid) # rs) db = enroll_all rs (snd (enroll u cid db))"

text \<open>Roster size within capacity: the capacity is at least the size of the roster.\<close>

definition within_capacity :: "course \<Rightarrow> bool" where
  "within_capacity c = js_ge (maxStudents c) (Num (of_nat (length (students c))))"

text \<open>A capacity that is a whole number.\<close>

fun whole :: "js_number \<Rightarrow> bool" where
  "whole (Num q) = (q = of_int \<lfloor>q\<rfloor>)"
| "whole x = False"

text \<open>The invariant of the rosters: within a capacity that is a whole number.\<close>

definition capacity_kept :: "course \<Rightarrow> bool" where
  "capacity_kept c = (within_capacity c \<and> whole (maxStudents c))"

text \<open>The state in which student \<open>k\<close> is on the roster of the active course \<open>cid\<close>.\<close>

definition enrolled :: "objectId \<Rightarrow> objectId \<Rightarrow> courses \<Rightarrow> bool" where
  "enrolled k cid db = (\<exists>c. db cid = Some c \<and> course_isActive c \<and> k \<in> set (students c))"

section \<open>Notes\<close>

record access =
  user :: objectId
  accessType :: string

record comment =
  comment_id :: objectId
  comment_user :: objectId
  comment_content :: string

text \<open>
  The view counter is the number stored in \<open>viewCount\<close>.
\<close>

record note_doc =
  title :: string
  content :: string
  note_course :: "objectId option"
  author :: objectId
  tags :: "string list"
  isPublic :: bool
  accessList :: "access list"
  viewCount :: js_number
  comments :: "comment list"

type_synonym note_store = "objectId \<rightharpoonup> note_doc"

text \<open>
  \<open>populate\<close> on a user reference, with \<open>users\<close> the identifiers of the user
  collection: the reference becomes the user's document, with that \<open>_id\<close>, or
  \<open>null\<close> when the collection has no such user.
\<close>

definition populate :: "objectId set \<Rightarrow> objectId \<Rightarrow> objectId option" where
  "populate users k = (if k \<in> users then Some k else None)"

text \<open>
  \<open>accessList.some(access => access.user._id.equals(k))\<close> on the populated entries,
  in order: \<open>None\<close> is the TypeError that reading \<open>_id\<close> of \<open>null\<close> throws.
\<close>

fun some_user_equals :: "objectId \<Rightarrow> objectId option list \<Rightarrow> bool option" where
  "some_user_equals k [] = Some False"
| "some_user_equals k (None # ps) = None"
| "some_user_equals k (Some i # ps) = (if i = k then Some True else some_user_equals k ps)"

text \<open>
  \<open>GET /:id\<close>.  The note is read with its user references populated; the test reads
  them left to right and stops at the first operand that decides it, and an exception
  is answered by the \<open>catch\<close> with 500.
\<close>

definition get_note ::
  "objectId set \<Rightarrow> caller \<Rightarrow> objectId \<Rightarrow> note_store \<Rightarrow> (failure + note_doc) \<times> note_store" where
  "get_note users u nid db =
    (case db nid of
       None \<Rightarrow> (Inl (Failure 404 ''Note not found''), db)
     | Some n \<Rightarrow>
       let served = (let n' = n\<lparr>viewCount := js_add_one (viewCount n)\<rparr>
                     in (Inr n', db(nid \<mapsto> n')));
           thrown = (Inl (Failure 500 ''Server error''), db);
           denied = (Inl (Failure 403 ''Access denied''), db)
       in
       if role u \<noteq> ''admin'' \<and> \<not> isPublic n then
         (case some_user_equals (uid u)
                 (map (\<lambda>access. populate users (user access)) (accessList n)) of
            None \<Rightarrow> thrown
          | Some True \<Rightarrow> served
          | Some False \<Rightarrow>
              (case populate users (author n) of
                 None \<Rightarrow> thrown
               | Some a \<Rightarrow> if a \<noteq> uid u then denied else served))
       else served)"

text \<open>
  \<open>POST /:id/comments\<close>; \<open>cid\<close> is the identifier generated for the pushed comment.
  The response is the last comment of the note read back.
\<close>

definition add_comment ::
  "caller \<Rightarrow> objectId \<Rightarrow> objectId \<Rightarrow> string \<Rightarrow> note_store \<Rightarrow> (failure + comment) \<times> note_store" where
  "add_comment u nid cid text db =
    (case db nid of
       None \<Rightarrow> (Inl (Failure 404 ''Note not found''), db)
     | Some n \<Rightarrow>
       if role u \<noteq> ''admin'' \<and> \<not> isPublic n \<and>
          \<not> list_ex (\<lambda>access. user access = uid u) (accessList n) \<and>
          author n \<noteq> uid u
       then (Inl (Failure 403 ''Access denied''), db)
       else
         let n' = n\<lparr>comments := comments n @
                    [\<lparr>comment_id = cid, comment_user = uid u, comment_content = text\<rparr>]\<rparr>
         in (Inr (last (comments n')), db(nid \<mapsto> n')))"



text \<open>
  Every user reference of the note resolves: the author and the users of the access
  list are in the user collection.
\<close>

definition resolved :: "objectId set \<Rightarrow> note_doc \<Rightarrow> bool" where
  "resolved users n = (author n \<in> users \<and> (\<forall>a \<in> set (accessList n). user a \<in> users))"

subsection \<open>Listing notes\<close>

text \<open>
  The query object of \<open>GET /\<close>: its three keys \<open>course\<close>, \<open>$or\<close> and \<open>tags\<close>, each
  absent or set.  An \<open>$or\<close> holds a list of conditions on a note.
\<close>

datatype condition =
    TitleRegex string
  | ContentRegex string
  | IsPublic bool
  | AccessListUser objectId
  | Author objectId

record query =
  q_course :: "objectId option"
  q_or :: "condition list option"
  q_tags_in :: "string list option"

text \<open>\<open>String.prototype.split\<close> on a one-character separator.\<close>

fun split :: "char \<Rightarrow> string \<Rightarrow> string list" where
  "split c [] = [[]]"
| "split c (x # xs) =
     (if x = c then [] # split c xs
      else (case split c xs of w # ws \<Rightarrow> (x # w) # ws | [] \<Rightarrow> [[x]]))"

text \<open>
  The query as the route builds it, one assignment after the other: the permission
  filter is assigned to the same key \<open>$or\<close> as the search.
\<close>

definition build_query ::
  "caller \<Rightarrow> objectId option \<Rightarrow> string option \<Rightarrow> string option \<Rightarrow> query" where
  "build_query u course search tgs =
    (let q0 = \<lparr>q_course = None, q_or = None, q_tags_in = None\<rparr>;
         q1 = (case course of Some c \<Rightarrow> q0\<lparr>q_course := Some c\<rparr> | None \<Rightarrow> q0);
         q2 = (if truthy search
               then q1\<lparr>q_or := Some [TitleRegex (the search), ContentRegex (the search)]\<rparr>
               else q1);
         q3 = (if truthy tgs then q2\<lparr>q_tags_in := Some (split CHR '','' (the tgs))\<rparr> else q2);
         q4 = (if role u \<noteq> ''admin''
               then q3\<lparr>q_or := Some [IsPublic True, AccessListUser (uid u), Author (uid u)]\<rparr>
               else q3)
     in q4)"

text \<open>
  What the document store does with the query.  \<open>rx p s\<close> is the store's
  case-insensitive regular-expression match of pattern \<open>p\<close> in text \<open>s\<close>.
\<close>

fun holds :: "(string \<Rightarrow> string \<Rightarrow> bool) \<Rightarrow> condition \<Rightarrow> note_doc \<Rightarrow> bool" where
  "holds rx (TitleRegex p) n = rx p (title n)"
| "holds rx (ContentRegex p) n = rx p (content n)"
| "holds rx (IsPublic b) n = (isPublic n = b)"
| "holds rx (AccessListUser k) n = list_ex (\<lambda>access. user access = k) (accessList n)"
| "holds rx (Author k) n = (author n = k)"

definition matches :: "(string \<Rightarrow> string \<Rightarrow> bool) \<Rightarrow> query \<Rightarrow> note_doc \<Rightarrow> bool" where
  "matches rx q n =
    ((case q_course q of None \<Rightarrow> True | Some c \<Rightarrow> note_course n = Some c) \<and>
     (case q_or q of None \<Rightarrow> True | Some cs \<Rightarrow> list_ex (\<lambda>c. holds rx c n) cs) \<and>
     (case q_tags_in q of None \<Rightarrow> True | Some ts \<Rightarrow> list_ex (\<lambda>t. t \<in> set ts) (tags n)))"

text \<open>
  \<open>GET /\<close> on the collection \<open>coll\<close>.  The result keeps the collection's order; the
  sort by creation time is left out.
\<close>

definition list_notes ::
  "(string \<Rightarrow> string \<Rightarrow> bool) \<Rightarrow> caller \<Rightarrow> objectId option \<Rightarrow> string option \<Rightarrow>
   string option \<Rightarrow> note_doc list \<Rightarrow> note_doc list" where
  "list_notes rx u course search tgs coll = filter (matches rx (build_query u course search tgs)) coll"

section \<open>The specification's predicates\<close>

text \<open>
  The access evaluator in the specification's words.  \<open>spec_canRead\<close>: the caller has
  administrative authority, or is the author, or the note is public, or the caller's
  reference appears in the access list with any access type.
\<close>

definition spec_canRead :: "caller \<Rightarrow> note_doc \<Rightarrow> bool" where
  "spec_canRead u n =
    (role u = ''admin'' \<or> author n = uid u \<or> isPublic n \<or> uid u \<in> user ` set (accessList n))"



text \<open>
  Case-insensitive membership in the specification's words: some member of the set
  equals the extension when case is ignored.
\<close>

definition ci_member :: "string \<Rightarrow> string list \<Rightarrow> bool" where
  "ci_member e xs = (\<exists>x \<in> set xs. toLowerCase x = toLowerCase e)"

text \<open>The state in which student \<open>k\<close> has one submission in the active assignment \<open>aid\<close>.\<close>

definition submitted :: "objectId \<Rightarrow> objectId \<Rightarrow> assignments \<Rightarrow> bool" where
  "submitted k aid db =
     (\<exists>a. db aid = Some a \<and> isActive a \<and>
          length (filter (\<lambda>x. student x = k) (submissions a)) = 1)"

section \<open>Example data\<close>

text \<open>
  Callers, documents and uploads on which the theorems are instantiated.
  \<open>ext_from_dot\<close> stands for \<open>path.extname\<close> on file names with one dot.
\<close>

definition ext_from_dot :: "string \<Rightarrow> string" where
  "ext_from_dot n = dropWhile (\<lambda>c. c \<noteq> CHR ''.'') n"

definition root :: caller where "root = \<lparr>uid = 1, role = ''admin''\<rparr>"
definition alice :: caller where "alice = \<lparr>uid = 2, role = ''student''\<rparr>"
definition bob :: caller where "bob = \<lparr>uid = 3, role = ''student''\<rparr>"

definition essay :: assignment where
  "essay = \<lparr> assignment_title = ''Essay'', description = ''Write an essay'',
             fileType = ''file'', dueDate = 100, maxFileSize = 10,
             allowedExtensions = [''.pdf''], isActive = True, createdBy = 1,
             submissions = [] \<rparr>"

definition essay_pdf :: upload where
  "essay_pdf = \<lparr>originalname = ''essay.PDF'', filename = ''file-7-1.PDF''\<rparr>"

definition essay_docx :: upload where
  "essay_docx = \<lparr>originalname = ''essay.docx'', filename = ''file-8-2.docx''\<rparr>"

definition alice_sub :: submission where
  "alice_sub = \<lparr> sub_id = 9, student = 2, submittedAt = 7,
      fileUrl = Some ''/uploads/assignments/file-7-1.PDF'', fileName = Some ''essay.PDF'',
      sub_fileType = ''.PDF'', sub_comments = [], grade = None, feedback = None \<rparr>"

definition bob_sub :: submission where
  "bob_sub = \<lparr> sub_id = 10, student = 3, submittedAt = 8,
      fileUrl = Some ''/uploads/assignments/file-8-3.pdf'', fileName = Some ''b.pdf'',
      sub_fileType = ''.pdf'', sub_comments = [], grade = None, feedback = None \<rparr>"

definition handed_in :: assignment where
  "handed_in = essay\<lparr>submissions := [alice_sub, bob_sub]\<rparr>"

definition algebra :: course where
  "algebra = \<lparr> course_title = ''Algebra'', code = ''MA1'', instructor = 1, students = [3],
       maxStudents = Num 2, course_isActive = True \<rparr>"

definition seminar :: course where
  "seminar = \<lparr> course_title = ''Seminar'', code = ''MA2'', instructor = 1, students = [3, 4],
       maxStudents = Num (5 / 2), course_isActive = True \<rparr>"

definition registered :: "objectId set" where
  "registered = {1, 2, 3, 4}"

definition lecture :: note_doc where
  "lecture = \<lparr> title = ''Algebra'', content = ''Groups and rings'', note_course = None,
       author = 1, tags = [''maths''], isPublic = False,
       accessList = [\<lparr>user = 2, accessType = ''view''\<rparr>], viewCount = Num 0,
       comments = [] \<rparr>"

definition dangling :: note_doc where
  "dangling = lecture\<lparr>accessList :=
     [\<lparr>user = 99, accessType = ''view''\<rparr>, \<lparr>user = 2, accessType = ''view''\<rparr>]\<rparr>"

definition saturated :: note_doc where
  "saturated = lecture\<lparr>viewCount := Num (2 ^ 53)\<rparr>"

definition scans :: assignment where
  "scans = essay\<lparr>allowedExtensions := [''.PDF'']\<rparr>"

definition scan_upper :: upload where
  "scan_upper = \<lparr>originalname = ''scan.PDF'', filename = ''file-9-4.PDF''\<rparr>"

definition scan_lower :: upload where
  "scan_lower = \<lparr>originalname = ''scan.pdf'', filename = ''file-9-5.pdf''\<rparr>"



definition open_lecture :: note_doc where
  "open_lecture = lecture\<lparr>isPublic := True\<rparr>"

section \<open>Submitting\<close>

lemmas example_defs = ext_from_dot_def root_def alice_def bob_def essay_def essay_pdf_def
  essay_docx_def

lemmas submit_defs = submit_def file_check_def new_submission_def toLowerCase_def
  lower_char_def Let_def

text \<open>A submit request either fails and leaves the store alone, or appends one submission.\<close>

lemma submit_cases:
  "submit ext now oid u aid file url cmts db = (r, db') \<Longrightarrow>
   (db' = db \<and> (\<exists>e. r = Inl e)) \<or>
   (\<exists>a. db aid = Some a \<and> isActive a \<and> role u \<noteq> ''admin'' \<and>
        uid u \<notin> student ` set (submissions a) \<and>
        r = Inr (new_submission ext now oid u file url cmts) \<and>
        db' = db(aid \<mapsto> a\<lparr>submissions :=
                 submissions a @ [new_submission ext now oid u file url cmts]\<rparr>))"
  by (auto simp: submit_def Let_def find_None_iff split: if_splits option.splits)

lemma student_new_submission [simp]:
  "student (new_submission ext now oid u file url cmts) = uid u"
  by (simp add: new_submission_def)

lemma filter_student_empty:
  "k \<notin> student ` set subs \<Longrightarrow> filter (\<lambda>x. student x = k) subs = []"
  by (induction subs) auto

lemma submit_success_submitted:
  assumes "submit ext now oid u aid file url cmts db = (Inr s, db')"
  shows "submitted (uid u) aid db'"
  using submit_cases [OF assms]
  by (auto simp: submitted_def filter_student_empty)

lemma submitted_member:
  assumes "submitted k aid db"
  shows "\<exists>a. db aid = Some a \<and> isActive a \<and> k \<in> student ` set (submissions a)"
proof -
  from assms obtain a where a: "db aid = Some a" "isActive a"
    "length (filter (\<lambda>x. student x = k) (submissions a)) = 1"
    by (auto simp: submitted_def)
  have "filter (\<lambda>x. student x = k) (submissions a) \<noteq> []" using a(3) by auto
  then have "k \<in> student ` set (submissions a)"
    by (auto simp: filter_empty_conv)
  with a show ?thesis by blast
qed

lemma submit_preserves_submitted:
  assumes "submitted k aid db"
  shows "submitted k aid (snd (submit ext now oid u aid' file url cmts db))"
proof -
  obtain r db' where eq: "submit ext now oid u aid' file url cmts db = (r, db')"
    by (cases "submit ext now oid u aid' file url cmts db")
  from submitted_member [OF assms] obtain a where
    a: "db aid = Some a" "k \<in> student ` set (submissions a)"
    by blast
  from submit_cases [OF eq] show ?thesis
  proof
    assume "db' = db \<and> (\<exists>e. r = Inl e)"
    with assms eq show ?thesis by simp
  next
    assume "\<exists>b. db aid' = Some b \<and> isActive b \<and> role u \<noteq> ''admin'' \<and>
        uid u \<notin> student ` set (submissions b) \<and>
        r = Inr (new_submission ext now oid u file url cmts) \<and>
        db' = db(aid' \<mapsto> b\<lparr>submissions :=
                 submissions b @ [new_submission ext now oid u file url cmts]\<rparr>)"
    then obtain b where b: "db aid' = Some b" "uid u \<notin> student ` set (submissions b)"
      "db' = db(aid' \<mapsto> b\<lparr>submissions :=
                 submissions b @ [new_submission ext now oid u file url cmts]\<rparr>)"
      by blast
    show ?thesis
    proof (cases "aid' = aid")
      case True
      with a b have "uid u \<noteq> k" by auto
      with assms b True eq show ?thesis by (auto simp: submitted_def)
    next
      case False
      with assms b eq show ?thesis by (auto simp: submitted_def)
    qed
  qed
qed

lemma submit_all_preserves_submitted:
  "submitted k aid db \<Longrightarrow> submitted k aid (submit_all ext rs db)"
proof (induction rs arbitrary: db)
  case Nil
  then show ?case by simp
next
  case (Cons r rs)
  obtain now oid u aid2 fl url cmts where r: "r = (now, oid, u, aid2, fl, url, cmts)"
    by (cases r)
  show ?case unfolding r submit_all.simps
    by (rule Cons.IH) (rule submit_preserves_submitted [OF Cons.prems])
qed

lemma submitted_duplicate:
  assumes "submitted (uid u) aid db" "role u \<noteq> ''admin''"
  shows "submit ext now oid u aid file url cmts db =
           (Inl (Failure 400 ''You have already submitted this assignment''), db)"
proof -
  from submitted_member [OF assms(1)] obtain a where
    a: "db aid = Some a" "isActive a" "uid u \<in> student ` set (submissions a)" by blast
  then have "find (\<lambda>sub. student sub = uid u) (submissions a) \<noteq> None"
    by (auto simp: find_None_iff)
  with a assms(2) show ?thesis by (simp add: submit_def)
qed

lemma submit_preserves_one_per_student:
  assumes "\<forall>a\<in>ran db. one_per_student a"
  shows "\<forall>a\<in>ran (snd (submit ext now oid u aid file url cmts db)). one_per_student a"
proof -
  obtain r db' where eq: "submit ext now oid u aid file url cmts db = (r, db')"
    by (cases "submit ext now oid u aid file url cmts db")
  from submit_cases [OF eq] show ?thesis
  proof
    assume "db' = db \<and> (\<exists>e. r = Inl e)"
    with assms eq show ?thesis by simp
  next
    assume "\<exists>b. db aid = Some b \<and> isActive b \<and> role u \<noteq> ''admin'' \<and>
        uid u \<notin> student ` set (submissions b) \<and>
        r = Inr (new_submission ext now oid u file url cmts) \<and>
        db' = db(aid \<mapsto> b\<lparr>submissions :=
                 submissions b @ [new_submission ext now oid u file url cmts]\<rparr>)"
    then obtain b where b: "db aid = Some b" "uid u \<notin> student ` set (submissions b)"
      "db' = db(aid \<mapsto> b\<lparr>submissions :=
                 submissions b @ [new_submission ext now oid u file url cmts]\<rparr>)"
      by blast
    from b(1) assms have "one_per_student b" by (auto simp: ran_def)
    with b(2) have new: "one_per_student
        (b\<lparr>submissions := submissions b @ [new_submission ext now oid u file url cmts]\<rparr>)"
      by (auto simp: one_per_student_def)
    show ?thesis
    proof
      fix a assume "a \<in> ran (snd (submit ext now oid u aid file url cmts db))"
      then obtain i where "db' i = Some a" using eq by (auto simp: ran_def)
      then show "one_per_student a" using new assms b(3)
        by (cases "i = aid") (auto simp: ran_def)
    qed
  qed
qed

lemma submit_all_preserves_one_per_student:
  "\<forall>a\<in>ran db. one_per_student a \<Longrightarrow> \<forall>a\<in>ran (submit_all ext rs db). one_per_student a"
proof (induction rs arbitrary: db)
  case Nil
  then show ?case by simp
next
  case (Cons r rs)
  obtain now oid u aid2 fl url cmts where r: "r = (now, oid, u, aid2, fl, url, cmts)"
    by (cases r)
  show ?case unfolding r submit_all.simps
    by (rule Cons.IH) (rule submit_preserves_one_per_student [OF Cons.prems])
qed

text \<open>
  C1.  After a successful submit by student \<open>u\<close> to assignment \<open>aid\<close>, and after any
  further run \<open>rs\<close> of submit requests, the assignment holds exactly one submission whose
  student reference is \<open>u\<close>; every later submit by \<open>u\<close> to \<open>aid\<close>, whatever its payload,
  is answered with 400 ``You have already submitted this assignment'' and leaves the
  store as it was.  And a store in which every assignment has at most one submission per
  student reference stays so under any run of submit requests.
\<close>

theorem submit_once_per_student:
  assumes "submit ext now oid u aid file url cmts db = (Inr s, db')"
  shows "(\<exists>a'. submit_all ext rs db' aid = Some a' \<and>
            length (filter (\<lambda>x. student x = uid u) (submissions a')) = 1) \<and>
         submit ext now2 oid2 u aid file2 url2 cmts2 (submit_all ext rs db') =
           (Inl (Failure 400 ''You have already submitted this assignment''),
            submit_all ext rs db') \<and>
         ((\<forall>a\<in>ran db0. one_per_student a) \<longrightarrow>
          (\<forall>a\<in>ran (submit_all ext rs0 db0). one_per_student a))"
proof -
  from submit_cases [OF assms] have nonadmin: "role u \<noteq> ''admin''" by auto
  have "submitted (uid u) aid db'" by (rule submit_success_submitted [OF assms])
  then have later: "submitted (uid u) aid (submit_all ext rs db')"
    by (rule submit_all_preserves_submitted)
  then have one: "\<exists>a'. submit_all ext rs db' aid = Some a' \<and>
            length (filter (\<lambda>x. student x = uid u) (submissions a')) = 1"
    by (auto simp: submitted_def)
  have dup: "submit ext now2 oid2 u aid file2 url2 cmts2 (submit_all ext rs db') =
           (Inl (Failure 400 ''You have already submitted this assignment''),
            submit_all ext rs db')"
    by (rule submitted_duplicate [OF later nonadmin])
  have inv: "(\<forall>a\<in>ran db0. one_per_student a) \<longrightarrow>
          (\<forall>a\<in>ran (submit_all ext rs0 db0). one_per_student a)"
    using submit_all_preserves_one_per_student by blast
  from one dup inv show ?thesis by blast
qed

theorem submit_once_per_student_witness:
  "\<exists>s db'.
     submit ext_from_dot 7 9 alice 5 (Some essay_pdf) None None [5 \<mapsto> essay] = (Inr s, db') \<and>
     (\<exists>a'. submit_all ext_from_dot [(8, 10, bob, 5, Some essay_pdf, None, None)] db' 5 = Some a' \<and>
           length (filter (\<lambda>x. student x = uid alice) (submissions a')) = 1) \<and>
     submit ext_from_dot 11 12 alice 5 (Some essay_pdf) None (Some ''again'')
        (submit_all ext_from_dot [(8, 10, bob, 5, Some essay_pdf, None, None)] db') =
       (Inl (Failure 400 ''You have already submitted this assignment''),
        submit_all ext_from_dot [(8, 10, bob, 5, Some essay_pdf, None, None)] db') \<and>
     one_per_student (the (submit_all ext_from_dot
        [(7, 9, alice, 5, Some essay_pdf, None, None),
         (8, 10, bob, 5, Some essay_pdf, None, None)]
        [5 \<mapsto> essay] 5))"
proof -
  let ?rs = "[(7, 9, alice, 5, Some essay_pdf, None, None),
              (8, 10, bob, 5, Some essay_pdf, None, None)]"
  obtain s db' where
    h: "submit ext_from_dot 7 9 alice 5 (Some essay_pdf) None None [5 \<mapsto> essay] = (Inr s, db')"
    by (simp add: submit_defs example_defs)
  have inv0: "\<forall>a\<in>ran [5 \<mapsto> essay]. one_per_student a"
    by (simp add: one_per_student_def essay_def)
  have dom: "\<exists>a. submit_all ext_from_dot ?rs [5 \<mapsto> essay] 5 = Some a"
    by (simp add: submit_defs example_defs)
  note t = submit_once_per_student [OF h, of "[(8, 10, bob, 5, Some essay_pdf, None, None)]"
      11 12 "Some essay_pdf" None "Some ''again''" "[5 \<mapsto> essay]" ?rs]
  from t inv0 have "\<forall>a\<in>ran (submit_all ext_from_dot ?rs [5 \<mapsto> essay]). one_per_student a"
    by blast
  with dom have "one_per_student (the (submit_all ext_from_dot ?rs [5 \<mapsto> essay] 5))"
    by (auto simp: ran_def)
  with t h show ?thesis by blast
qed

lemma lower_char_idem: "lower_char (lower_char c) = lower_char c"
  by (simp add: lower_char_def)

lemma toLowerCase_idem: "toLowerCase (toLowerCase s) = toLowerCase s"
  by (simp add: toLowerCase_def lower_char_idem)

lemma lowered_member_ci: "toLowerCase e \<in> set xs \<Longrightarrow> ci_member e xs"
  unfolding ci_member_def using toLowerCase_idem by blast

lemma sublist_prepend: "sublist e zs \<Longrightarrow> sublist e (p @ zs)"
  by (simp add: sublist_append)

lemma sublist_join: "e \<in> set xs \<Longrightarrow> sublist e (join sep xs)"
proof (induction sep xs rule: join.induct)
  case (1 sep)
  then show ?case by simp
next
  case (2 sep x)
  then show ?case by simp
next
  case (3 sep x y ys)
  show ?case
  proof (cases "e = x")
    case True
    then show ?thesis by (simp add: sublist_append_rightI)
  next
    case False
    with 3 have "sublist e (join sep (y # ys))" by simp
    then have "sublist e ((x @ sep) @ join sep (y # ys))" by (rule sublist_prepend)
    then show ?thesis by simp
  qed
qed

text \<open>
  The test of the route itself: the file's extension is lower-cased and then looked up in
  the set as stored.
\<close>

lemma file_check_exact:
  "file_check ext a (Some f) =
     (if fileType a \<noteq> ''any'' \<and> fileType a \<noteq> ''url'' \<and> allowedExtensions a \<noteq> [] \<and>
         toLowerCase (ext (originalname f)) \<notin> set (allowedExtensions a)
      then Some (Failure 400 (''File type not allowed. Allowed types: '' @
                               join '', '' (allowedExtensions a)))
      else None)"
  by (simp add: file_check_def Let_def)

text \<open>
  A non-administrative caller submits to an existing, active assignment to which the
  caller has not submitted, and whose mode is neither \<open>any\<close> nor \<open>url\<close>.  With no file
  the answer is 400 ``File is required for this assignment''.  With a file, when the
  allowed-extension set is not empty and no member of it equals the file's extension
  with case ignored, the answer is 400 with a message that ends in the joined set, so
  that every allowed extension occurs in it.  The store is unchanged in both cases.
\<close>

lemma submit_file_validation:
  assumes "role u \<noteq> ''admin''" "db aid = Some a" "isActive a"
    "uid u \<notin> student ` set (submissions a)"
    "fileType a \<noteq> ''any''" "fileType a \<noteq> ''url''"
  shows "(req_file = None \<longrightarrow>
            submit ext now oid u aid req_file url cmts db =
              (Inl (Failure 400 ''File is required for this assignment''), db)) \<and>
         (\<forall>f. req_file = Some f \<and> allowedExtensions a \<noteq> [] \<and>
              \<not> ci_member (ext (originalname f)) (allowedExtensions a) \<longrightarrow>
            submit ext now oid u aid req_file url cmts db =
              (Inl (Failure 400 (''File type not allowed. Allowed types: '' @
                                  join '', '' (allowedExtensions a))), db) \<and>
            status (Failure 400 (''File type not allowed. Allowed types: '' @
                                  join '', '' (allowedExtensions a))) = 400 \<and>
            (\<forall>e \<in> set (allowedExtensions a).
               sublist e (''File type not allowed. Allowed types: '' @
                          join '', '' (allowedExtensions a))))"
proof -
  from assms(4) have nodup: "find (\<lambda>sub. student sub = uid u) (submissions a) = None"
    by (force simp: find_None_iff)
  have nofile: "req_file = None \<longrightarrow>
            submit ext now oid u aid req_file url cmts db =
              (Inl (Failure 400 ''File is required for this assignment''), db)"
    using assms nodup by (simp add: submit_def file_check_def)
  have bad: "submit ext now oid u aid req_file url cmts db =
              (Inl (Failure 400 (''File type not allowed. Allowed types: '' @
                                  join '', '' (allowedExtensions a))), db)"
    if "req_file = Some f" "allowedExtensions a \<noteq> []"
       "\<not> ci_member (ext (originalname f)) (allowedExtensions a)" for f
  proof -
    from that(3) have "toLowerCase (ext (originalname f)) \<notin> set (allowedExtensions a)"
      using lowered_member_ci by blast
    with that(1,2) assms nodup show ?thesis
      by (simp add: submit_def file_check_exact)
  qed
  have incl: "\<forall>e \<in> set (allowedExtensions a).
               sublist e (''File type not allowed. Allowed types: '' @
                          join '', '' (allowedExtensions a))"
  proof
    fix e assume "e \<in> set (allowedExtensions a)"
    then have "sublist e (join '', '' (allowedExtensions a))" by (rule sublist_join)
    then show "sublist e (''File type not allowed. Allowed types: '' @
                          join '', '' (allowedExtensions a))"
      by (rule sublist_prepend)
  qed
  from nofile bad incl show ?thesis by simp
qed

lemma submit_file_validation_example:
  "submit ext_from_dot 8 10 alice 5 None None None [5 \<mapsto> essay] =
     (Inl (Failure 400 ''File is required for this assignment''), [5 \<mapsto> essay]) \<and>
   submit ext_from_dot 8 10 alice 5 (Some essay_docx) None None [5 \<mapsto> essay] =
     (Inl (Failure 400 ''File type not allowed. Allowed types: .pdf''), [5 \<mapsto> essay]) \<and>
   sublist ''.pdf'' ''File type not allowed. Allowed types: .pdf''"
proof -
  have h1: "role alice \<noteq> ''admin''" by (simp add: alice_def)
  have h2: "[5 \<mapsto> essay] (5::nat) = Some essay" by simp
  have h3: "isActive essay" by (simp add: essay_def)
  have h4: "uid alice \<notin> student ` set (submissions essay)" by (simp add: essay_def)
  have h5: "fileType essay \<noteq> ''any''" by (simp add: essay_def)
  have h6: "fileType essay \<noteq> ''url''" by (simp add: essay_def)
  have h7: "allowedExtensions essay \<noteq> []" by (simp add: essay_def)
  have h8: "\<not> ci_member (ext_from_dot (originalname essay_docx)) (allowedExtensions essay)"
    by (simp add: ci_member_def toLowerCase_def lower_char_def example_defs)
  have j: "join '', '' (allowedExtensions essay) = ''.pdf''" by (simp add: essay_def)
  have m: "''.pdf'' \<in> set (allowedExtensions essay)" by (simp add: essay_def)
  note a = submit_file_validation [where db = "[5 \<mapsto> essay]" and aid = 5 and a = essay
      and u = alice and req_file = None and ext = ext_from_dot and now = 8 and oid = 10
      and url = None and cmts = None, OF h1 h2 h3 h4 h5 h6]
  note b = submit_file_validation [where db = "[5 \<mapsto> essay]" and aid = 5 and a = essay
      and u = alice and req_file = "Some essay_docx" and ext = ext_from_dot and now = 8
      and oid = 10 and url = None and cmts = None, OF h1 h2 h3 h4 h5 h6]
  from a have 1: "submit ext_from_dot 8 10 alice 5 None None None [5 \<mapsto> essay] =
     (Inl (Failure 400 ''File is required for this assignment''), [5 \<mapsto> essay])" by simp
  from b h7 h8 have 2: "submit ext_from_dot 8 10 alice 5 (Some essay_docx) None None [5 \<mapsto> essay] =
     (Inl (Failure 400 (''File type not allowed. Allowed types: '' @
         join '', '' (allowedExtensions essay))), [5 \<mapsto> essay])"
    and 3: "\<forall>e \<in> set (allowedExtensions essay).
               sublist e (''File type not allowed. Allowed types: '' @
                          join '', '' (allowedExtensions essay))"
    by blast+
  from 3 m have "sublist ''.pdf'' (''File type not allowed. Allowed types: '' @
                          join '', '' (allowedExtensions essay))" by blast
  with 1 2 show ?thesis unfolding j by simp
qed

text \<open>
  C4 at a failing input.  The assignment \<open>scans\<close> has mode \<open>file\<close> and the allowed
  extensions \<open>.PDF\<close>.  A student who has not submitted sends the file \<open>scan.PDF\<close>,
  whose extension is a member of the set as it stands, and then \<open>scan.pdf\<close>, whose
  extension is a member when case is ignored.  Both are answered with 400 ``File type
  not allowed. Allowed types: .PDF'': the route lower-cases the file's extension and
  looks it up in the set as stored, so no file passes an entry that has an upper-case
  letter.
\<close>

theorem submit_rejects_listed_extension:
  "ext_from_dot (originalname scan_upper) \<in> set (allowedExtensions scans) \<and>
   ci_member (ext_from_dot (originalname scan_upper)) (allowedExtensions scans) \<and>
   submit ext_from_dot 9 11 alice 6 (Some scan_upper) None None [6 \<mapsto> scans] =
     (Inl (Failure 400 ''File type not allowed. Allowed types: .PDF''), [6 \<mapsto> scans]) \<and>
   ci_member (ext_from_dot (originalname scan_lower)) (allowedExtensions scans) \<and>
   submit ext_from_dot 9 11 alice 6 (Some scan_lower) None None [6 \<mapsto> scans] =
     (Inl (Failure 400 ''File type not allowed. Allowed types: .PDF''), [6 \<mapsto> scans])"
  by (simp add: submit_defs example_defs scans_def scan_upper_def scan_lower_def ci_member_def)

text \<open>
  C10.  A caller with the administrative role is refused by submit with 403 ``Admins
  cannot submit assignments'' for every assignment identifier, whether or not an
  assignment is stored under it: the role is tested before the assignment is looked up,
  so the answer is never 404, and the store is left as it was.
\<close>

theorem admin_submit_forbidden:
  "role u = ''admin'' \<Longrightarrow>
   submit ext now oid u aid file url cmts db =
     (Inl (Failure 403 ''Admins cannot submit assignments''), db)"
  by (simp add: submit_def)

theorem admin_submit_forbidden_witness:
  "role root = ''admin'' \<and> Map.empty 42 = (None :: assignment option) \<and>
   submit ext_from_dot 7 9 root 42 (Some essay_pdf) None None Map.empty =
     (Inl (Failure 403 ''Admins cannot submit assignments''), Map.empty) \<and>
   submit ext_from_dot 7 9 root 5 (Some essay_pdf) None None [5 \<mapsto> essay] =
     (Inl (Failure 403 ''Admins cannot submit assignments''), [5 \<mapsto> essay])"
proof -
  have r: "role root = ''admin''" by (simp add: root_def)
  from admin_submit_forbidden [OF r, of ext_from_dot 7 9 42 "Some essay_pdf" None None Map.empty]
       admin_submit_forbidden [OF r, of ext_from_dot 7 9 5 "Some essay_pdf" None None
         "[5 \<mapsto> essay]"] r
  show ?thesis by simp
qed

section \<open>Grading\<close>

lemma replace_first_nth:
  "find P xs = Some x \<Longrightarrow>
   \<exists>i. i < length xs \<and> xs ! i = x \<and> P x \<and> replace_first P y xs = xs[i := y]"
proof (induction xs)
  case Nil
  then show ?case by simp
next
  case (Cons z zs)
  show ?case
  proof (cases "P z")
    case True
    with Cons.prems have "z = x" by simp
    with True have "0 < length (z # zs) \<and> (z # zs) ! 0 = x \<and> P x \<and>
        replace_first P y (z # zs) = (z # zs)[0 := y]" by simp
    then show ?thesis by blast
  next
    case False
    with Cons.prems have "find P zs = Some x" by simp
    from Cons.IH [OF this] obtain i where
      i: "i < length zs" "zs ! i = x" "P x" "replace_first P y zs = zs[i := y]" by blast
    with False have "Suc i < length (z # zs) \<and> (z # zs) ! Suc i = x \<and> P x \<and>
        replace_first P y (z # zs) = (z # zs)[Suc i := y]" by simp
    then show ?thesis by blast
  qed
qed

lemma find_sub_id_None:
  "(find (\<lambda>sub. sub_id sub = sid) subs = None) = (sid \<notin> sub_id ` set subs)"
  by (force simp: find_None_iff)

lemma grade_non_admin:
  "role u \<noteq> ''admin'' \<Longrightarrow>
   grade_submission u aid sid g f db = (Inl (Failure 403 ''Access denied''), db)"
  by (simp add: grade_submission_def adminAuth_def)

lemma grade_no_assignment:
  "role u = ''admin'' \<Longrightarrow> db aid = None \<Longrightarrow>
   grade_submission u aid sid g f db = (Inl (Failure 404 ''Assignment not found''), db)"
  by (simp add: grade_submission_def adminAuth_def)

lemma grade_no_submission:
  "role u = ''admin'' \<Longrightarrow> db aid = Some a \<Longrightarrow> sid \<notin> sub_id ` set (submissions a) \<Longrightarrow>
   grade_submission u aid sid g f db = (Inl (Failure 404 ''Submission not found''), db)"
proof -
  assume adm: "role u = ''admin''" and a: "db aid = Some a"
    and "sid \<notin> sub_id ` set (submissions a)"
  then have "find (\<lambda>sub. sub_id sub = sid) (submissions a) = None"
    by (simp add: find_sub_id_None)
  with adm a show ?thesis by (simp add: grade_submission_def adminAuth_def)
qed

lemma grade_success:
  assumes "grade_submission u aid sid g f db = (Inr s, db')"
  shows "role u = ''admin'' \<and>
         (\<exists>a i. db aid = Some a \<and> i < length (submissions a) \<and>
                sub_id (submissions a ! i) = sid \<and>
                s = (submissions a ! i)\<lparr>grade := g, feedback := f\<rparr> \<and>
                db' = db(aid \<mapsto> a\<lparr>submissions := (submissions a)[i := s]\<rparr>))"
proof -
  from assms have adm: "role u = ''admin''"
    by (auto simp: grade_submission_def adminAuth_def split: if_splits)
  from assms adm obtain a where a: "db aid = Some a"
    by (auto simp: grade_submission_def adminAuth_def split: option.splits)
  from assms adm a obtain sub where
    sub: "find (\<lambda>sub. sub_id sub = sid) (submissions a) = Some sub"
    by (auto simp: grade_submission_def adminAuth_def split: option.splits)
  from assms adm a sub have
    s: "s = sub\<lparr>grade := g, feedback := f\<rparr>" and
    db': "db' = db(aid \<mapsto> a\<lparr>submissions :=
             replace_first (\<lambda>sub. sub_id sub = sid) s (submissions a)\<rparr>)"
    by (auto simp: grade_submission_def adminAuth_def Let_def)
  from replace_first_nth [OF sub, of s] obtain i where
    i: "i < length (submissions a)" "submissions a ! i = sub" "sub_id sub = sid"
       "replace_first (\<lambda>sub. sub_id sub = sid) s (submissions a) = (submissions a)[i := s]"
    by blast
  from a i s db' adm show ?thesis by auto
qed

text \<open>
  C5.  Grading by a caller without the administrative role is answered with status 403
  and changes nothing.  Grading by an administrative caller is answered with status 404,
  and changes nothing, when no assignment is stored under the identifier or when no
  submission of the assignment has the submission identifier.  When grading succeeds,
  the caller is administrative, and the store differs from the old one only in the
  assignment, whose sequence differs only at the position of the located submission,
  which is the old one with the grade and the feedback set; that submission is the
  response.
\<close>

theorem grade_authority_gated:
  "(role u \<noteq> ''admin'' \<longrightarrow>
      (\<exists>e. grade_submission u aid sid g f db = (Inl e, db) \<and> status e = 403)) \<and>
   (role u = ''admin'' \<and>
      (db aid = None \<or> (\<exists>a. db aid = Some a \<and> sid \<notin> sub_id ` set (submissions a))) \<longrightarrow>
      (\<exists>e. grade_submission u aid sid g f db = (Inl e, db) \<and> status e = 404)) \<and>
   (\<forall>s db'. grade_submission u aid sid g f db = (Inr s, db') \<longrightarrow>
      role u = ''admin'' \<and>
      (\<exists>a i. db aid = Some a \<and> i < length (submissions a) \<and>
             sub_id (submissions a ! i) = sid \<and>
             s = (submissions a ! i)\<lparr>grade := g, feedback := f\<rparr> \<and>
             db' = db(aid \<mapsto> a\<lparr>submissions := (submissions a)[i := s]\<rparr>)))"
proof (intro conjI impI allI)
  assume "role u \<noteq> ''admin''"
  then show "\<exists>e. grade_submission u aid sid g f db = (Inl e, db) \<and> status e = 403"
    by (simp add: grade_non_admin)
next
  assume h: "role u = ''admin'' \<and>
      (db aid = None \<or> (\<exists>a. db aid = Some a \<and> sid \<notin> sub_id ` set (submissions a)))"
  then show "\<exists>e. grade_submission u aid sid g f db = (Inl e, db) \<and> status e = 404"
    by (auto simp: grade_no_assignment grade_no_submission)
next
  fix s db' assume "grade_submission u aid sid g f db = (Inr s, db')"
  then show "role u = ''admin''" using grade_success by blast
next
  fix s db' assume "grade_submission u aid sid g f db = (Inr s, db')"
  then show "\<exists>a i. db aid = Some a \<and> i < length (submissions a) \<and>
             sub_id (submissions a ! i) = sid \<and>
             s = (submissions a ! i)\<lparr>grade := g, feedback := f\<rparr> \<and>
             db' = db(aid \<mapsto> a\<lparr>submissions := (submissions a)[i := s]\<rparr>)"
    using grade_success by blast
qed

theorem grade_authority_gated_witness:
  "(\<exists>e. grade_submission alice 5 10 (Some 85) (Some ''Good'') [5 \<mapsto> handed_in] =
          (Inl e, [5 \<mapsto> handed_in]) \<and> status e = 403) \<and>
   (\<exists>e. grade_submission root 6 10 (Some 85) (Some ''Good'') [5 \<mapsto> handed_in] =
          (Inl e, [5 \<mapsto> handed_in]) \<and> status e = 404) \<and>
   (\<exists>e. grade_submission root 5 77 (Some 85) (Some ''Good'') [5 \<mapsto> handed_in] =
          (Inl e, [5 \<mapsto> handed_in]) \<and> status e = 404) \<and>
   grade_submission root 5 10 (Some 85) (Some ''Good'') [5 \<mapsto> handed_in] =
     (Inr (bob_sub\<lparr>grade := Some 85, feedback := Some ''Good''\<rparr>),
      [5 \<mapsto> essay\<lparr>submissions :=
         [alice_sub, bob_sub\<lparr>grade := Some 85, feedback := Some ''Good''\<rparr>]\<rparr>]) \<and>
   (\<exists>a i. [5 \<mapsto> handed_in] (5::nat) = Some a \<and> i < length (submissions a) \<and>
          sub_id (submissions a ! i) = 10 \<and>
          bob_sub\<lparr>grade := Some 85, feedback := Some ''Good''\<rparr> =
            (submissions a ! i)\<lparr>grade := Some 85, feedback := Some ''Good''\<rparr>)"
proof -
  note defs = grade_submission_def adminAuth_def handed_in_def alice_sub_def bob_sub_def
    essay_def root_def alice_def Let_def
  have 1: "role alice \<noteq> ''admin''" by (simp add: alice_def)
  have 2: "role root = ''admin'' \<and> ([5 \<mapsto> handed_in] (6::nat) = None \<or>
      (\<exists>a. [5 \<mapsto> handed_in] (6::nat) = Some a \<and> 10 \<notin> sub_id ` set (submissions a)))"
    by (simp add: root_def)
  have 3: "role root = ''admin'' \<and> ([5 \<mapsto> handed_in] (5::nat) = None \<or>
      (\<exists>a. [5 \<mapsto> handed_in] (5::nat) = Some a \<and> 77 \<notin> sub_id ` set (submissions a)))"
    by (simp add: root_def handed_in_def alice_sub_def bob_sub_def)
  have 4: "grade_submission root 5 10 (Some 85) (Some ''Good'') [5 \<mapsto> handed_in] =
     (Inr (bob_sub\<lparr>grade := Some 85, feedback := Some ''Good''\<rparr>),
      [5 \<mapsto> essay\<lparr>submissions :=
         [alice_sub, bob_sub\<lparr>grade := Some 85, feedback := Some ''Good''\<rparr>]\<rparr>])"
    by (simp add: defs)
  from grade_authority_gated [where u = alice and aid = 5 and sid = 10 and g = "Some 85"
      and f = "Some ''Good''" and db = "[5 \<mapsto> handed_in]"] 1
  have a: "\<exists>e. grade_submission alice 5 10 (Some 85) (Some ''Good'') [5 \<mapsto> handed_in] =
          (Inl e, [5 \<mapsto> handed_in]) \<and> status e = 403"
    by blast
  from grade_authority_gated [where u = root and aid = 6 and sid = 10 and g = "Some 85"
      and f = "Some ''Good''" and db = "[5 \<mapsto> handed_in]"] 2
  have b: "\<exists>e. grade_submission root 6 10 (Some 85) (Some ''Good'') [5 \<mapsto> handed_in] =
          (Inl e, [5 \<mapsto> handed_in]) \<and> status e = 404"
    by blast
  from grade_authority_gated [where u = root and aid = 5 and sid = 77 and g = "Some 85"
      and f = "Some ''Good''" and db = "[5 \<mapsto> handed_in]"] 3
  have c: "\<exists>e. grade_submission root 5 77 (Some 85) (Some ''Good'') [5 \<mapsto> handed_in] =
          (Inl e, [5 \<mapsto> handed_in]) \<and> status e = 404"
    by blast
  from grade_authority_gated [where u = root and aid = 5 and sid = 10 and g = "Some 85"
      and f = "Some ''Good''" and db = "[5 \<mapsto> handed_in]"] 4
  have d: "\<exists>a i. [5 \<mapsto> handed_in] (5::nat) = Some a \<and> i < length (submissions a) \<and>
          sub_id (submissions a ! i) = 10 \<and>
          bob_sub\<lparr>grade := Some 85, feedback := Some ''Good''\<rparr> =
            (submissions a ! i)\<lparr>grade := Some 85, feedback := Some ''Good''\<rparr>"
    by blast
  from a b c 4 d show ?thesis by blast
qed

section \<open>Binary64 arithmetic\<close>

declare b64_exponent.simps [simp del]

lemma b64_exponent_range:
  "e0 \<le> 971 \<Longrightarrow>
   e0 \<le> b64_exponent a e0 \<and> b64_exponent a e0 \<le> 971 \<and>
   (a < 2 ^ 53 * 2 powi (b64_exponent a e0) \<or> b64_exponent a e0 = 971) \<and>
   (e0 < b64_exponent a e0 \<longrightarrow> 2 ^ 53 * 2 powi (b64_exponent a e0 - 1) \<le> a)"
proof (induction a e0 rule: b64_exponent.induct)
  case (1 a e)
  show ?case
  proof (cases "a < 2 ^ 53 * 2 powi e \<or> 971 \<le> e")
    case True
    then have "b64_exponent a e = e" by (simp add: b64_exponent.simps)
    with True "1.prems" show ?thesis by auto
  next
    case False
    then have eq: "b64_exponent a e = b64_exponent a (e + 1)"
      by (subst b64_exponent.simps) simp
    from False have lt: "e + 1 \<le> 971" by simp
    note IH = "1.IH" [OF False lt]
    show ?thesis
    proof (cases "e + 1 < b64_exponent a (e + 1)")
      case True
      with IH eq show ?thesis by auto
    next
      case f: False
      with IH have "b64_exponent a (e + 1) = e + 1" by simp
      with eq False IH show ?thesis by auto
    qed
  qed
qed

lemma of_int_le_pow53: "(of_int k :: rat) \<le> 2 ^ 53" if "k \<le> 2 ^ 53" for k :: int
  using that by (metis of_int_le_iff of_int_numeral of_int_power)

lemma significand_whole:
  fixes k :: int
  assumes "1 \<le> k" "k \<le> 2 ^ 53"
  shows "\<exists>m. (of_int k :: rat) / 2 powi (b64_exponent (of_int k) (- 1074)) = of_int m"
proof -
  define a :: rat where "a = of_int k"
  define e where "e = b64_exponent a (- 1074)"
  define p :: rat where "p = 2 ^ 53"
  have ppos: "0 < p" unfolding p_def by (rule zero_less_power) simp
  from b64_exponent_range [of "- 1074" a]
  have lo: "- 1074 < e \<longrightarrow> p * 2 powi (e - 1) \<le> a" unfolding e_def p_def by simp
  have ub: "a \<le> p" unfolding a_def p_def using assms(2) by (rule of_int_le_pow53)
  have e1: "e \<le> 1"
  proof (rule ccontr)
    assume "\<not> e \<le> 1"
    then have e2: "2 \<le> e" by simp
    with lo have 1: "p * 2 powi (e - 1) \<le> a" by simp
    have "(2::rat) powi 1 \<le> 2 powi (e - 1)"
      using e2 by (intro power_int_increasing) simp_all
    then have "(2::rat) \<le> 2 powi (e - 1)" by simp
    then have "p * 2 \<le> p * 2 powi (e - 1)" using ppos by simp
    with 1 ub have "p * 2 \<le> p" by simp
    with ppos show False by simp
  qed
  show ?thesis
  proof (cases "e = 1")
    case True
    with lo have "p \<le> a" by simp
    with ub have "a = p" by simp
    then have "a / 2 powi e = 2 ^ 52" using True unfolding p_def by simp
    also have "\<dots> = of_int (2 ^ 52)" by simp
    finally show ?thesis unfolding a_def e_def by blast
  next
    case False
    with e1 have "e \<le> 0" by simp
    then have "(2::rat) powi e = inverse (2 ^ nat (- e))"
      by (simp add: power_int_def power_inverse inverse_eq_divide power_one_over)
    then have "a / 2 powi e = of_int (k * 2 ^ nat (- e))"
      unfolding a_def by (simp add: field_simps)
    then show ?thesis unfolding a_def e_def by blast
  qed
qed

lemma round_half_even_of_int [simp]: "round_half_even (of_int m) = m"
  by (simp add: round_half_even_def)

lemma pow53_less_pow1024: "(2::rat) ^ 53 < 2 ^ 1024"
  by (rule power_strict_increasing) simp_all

lemma round_b64_whole:
  fixes k :: int
  assumes "\<bar>k\<bar> \<le> 2 ^ 53"
  shows "round_b64 (of_int k) = Num (of_int k)"
proof -
  define a :: rat where "a = \<bar>of_int k\<bar>"
  define e where "e = b64_exponent a (- 1074)"
  have whole: "\<exists>m. a / 2 powi e = of_int m"
  proof (cases "k = 0")
    case True
    then have "a / 2 powi e = of_int 0" unfolding a_def by simp
    then show ?thesis by blast
  next
    case False
    with assms have "1 \<le> \<bar>k\<bar>" "\<bar>k\<bar> \<le> 2 ^ 53" by simp_all
    from significand_whole [OF this] show ?thesis unfolding a_def e_def by simp
  qed
  then obtain m where m: "a / 2 powi e = of_int m" by blast
  have r: "round_half_even (a / 2 powi e) = m"
    unfolding m by (rule round_half_even_of_int)
  have "(2::rat) powi e \<noteq> 0" by simp
  with m have "of_int m * 2 powi e = a"
    by (simp add: divide_eq_eq)
  with r have v: "of_int (round_half_even (a / 2 powi e)) * 2 powi e = a" by simp
  have "a = of_int \<bar>k\<bar>" unfolding a_def by simp
  also have "\<dots> \<le> 2 ^ 53" using assms by (rule of_int_le_pow53)
  also note pow53_less_pow1024
  finally have "a < 2 ^ 1024" .
  then have "\<not> 2 ^ 1024 \<le> a" by (simp only: not_le)
  then have small: "(2 ^ 1024 \<le> a) = False" by (rule eq_False [THEN iffD2])
  have sg: "sgn (of_int k :: rat) * a = of_int k"
    unfolding a_def by (simp add: sgn_if)
  show ?thesis
    unfolding round_b64_def Let_def a_def [symmetric] e_def [symmetric] v small if_False sg
    by (rule refl)
qed

lemma b64_exponent_above_pow53: "b64_exponent (2 ^ 53 + 1) (- 1074) = 1"
proof -
  define p :: rat where "p = 2 ^ 53"
  define e where "e = b64_exponent (p + 1) (- 1074)"
  have p2: "2 \<le> p" unfolding p_def by (rule order_trans [of _ "2 ^ 1"]) (simp, rule power_increasing, simp_all)
  from b64_exponent_range [of "- 1074" "p + 1"]
  have hi: "p + 1 < p * 2 powi e \<or> e = 971"
    and lo: "- 1074 < e \<longrightarrow> p * 2 powi (e - 1) \<le> p + 1"
    unfolding e_def p_def by simp_all
  have ge: "1 \<le> e"
  proof (rule ccontr)
    assume "\<not> 1 \<le> e"
    then have e0: "e \<le> 0" by simp
    then have "(2::rat) powi e \<le> 2 powi 0" by (intro power_int_increasing) simp_all
    then have "p * 2 powi e \<le> p" using p2 by simp
    with hi e0 show False by simp
  qed
  have le: "e \<le> 1"
  proof (rule ccontr)
    assume "\<not> e \<le> 1"
    then have e2: "2 \<le> e" by simp
    then have "(2::rat) powi 1 \<le> 2 powi (e - 1)" by (intro power_int_increasing) simp_all
    then have "p * 2 \<le> p * 2 powi (e - 1)" using p2 by simp
    with lo e2 have "p * 2 \<le> p + 1" by simp
    with p2 show False by simp
  qed
  from ge le show ?thesis unfolding e_def p_def by simp
qed

lemma round_half_even_tie: "round_half_even ((2 ^ 53 + 1) / 2) = 2 ^ 52"
proof -
  have f: "\<lfloor>((2::rat) ^ 53 + 1) / 2\<rfloor> = 2 ^ 52" by (rule floor_unique) simp_all
  have d: "((2::rat) ^ 53 + 1) / 2 - of_int (2 ^ 52) = 1 / 2" by simp
  show ?thesis unfolding round_half_even_def Let_def f d by simp
qed

lemma round_b64_above_pow53: "round_b64 (2 ^ 53 + 1) = Num (2 ^ 53)"
proof -
  have a: "\<bar>(2::rat) ^ 53 + 1\<bar> = 2 ^ 53 + 1" by simp
  have v: "of_int (round_half_even ((2 ^ 53 + 1) / 2 powi 1)) * 2 powi 1 = (2::rat) ^ 53"
    unfolding power_int_1_right round_half_even_tie by simp
  have small: "((2::rat) ^ 1024 \<le> 2 ^ 53) = False"
    using pow53_less_pow1024 by (simp only: not_le [symmetric] simp_thms)
  have sg: "sgn ((2::rat) ^ 53 + 1) * 2 ^ 53 = 2 ^ 53" by simp
  show ?thesis
    unfolding round_b64_def Let_def a b64_exponent_above_pow53 v small if_False sg
    by (rule refl)
qed

lemma js_add_one_saturates: "js_add_one (Num (2 ^ 53)) = Num (2 ^ 53)"
  by (simp only: js_add_one.simps round_b64_above_pow53)

lemma js_add_one_whole:
  "\<bar>k + 1\<bar> \<le> 2 ^ 53 \<Longrightarrow> js_add_one (Num (of_int k)) = Num (of_int (k + 1))"
  using round_b64_whole [of "k + 1"] by simp

lemma round_b64_one: "round_b64 1 = Num 1"
  using round_b64_whole [of 1] by simp

lemma round_b64_two: "round_b64 2 = Num 2"
  using round_b64_whole [of 2] by simp

section \<open>Enrolling\<close>

text \<open>An enroll request either fails and leaves the store alone, or appends the caller.\<close>

lemma enroll_cases:
  "enroll u cid db = (r, db') \<Longrightarrow>
   (db' = db \<and> (\<exists>e. r = Inl e)) \<or>
   (\<exists>c. db cid = Some c \<and> course_isActive c \<and> uid u \<notin> set (students c) \<and>
        \<not> js_ge (Num (of_nat (length (students c)))) (maxStudents c) \<and>
        r = Inr ''Enrolled successfully'' \<and>
        db' = db(cid \<mapsto> c\<lparr>students := students c @ [uid u]\<rparr>))"
  by (auto simp: enroll_def split: if_splits option.splits)

lemma enroll_preserves_enrolled:
  assumes "enrolled k cid db"
  shows "enrolled k cid (snd (enroll u cid' db))"
proof -
  obtain r db' where eq: "enroll u cid' db = (r, db')" by (cases "enroll u cid' db")
  from enroll_cases [OF eq] show ?thesis
  proof
    assume "db' = db \<and> (\<exists>e. r = Inl e)"
    with assms eq show ?thesis by simp
  next
    assume "\<exists>c. db cid' = Some c \<and> course_isActive c \<and> uid u \<notin> set (students c) \<and>
        \<not> js_ge (Num (of_nat (length (students c)))) (maxStudents c) \<and>
        r = Inr ''Enrolled successfully'' \<and>
        db' = db(cid' \<mapsto> c\<lparr>students := students c @ [uid u]\<rparr>)"
    then obtain c where c: "db cid' = Some c" "course_isActive c"
      "db' = db(cid' \<mapsto> c\<lparr>students := students c @ [uid u]\<rparr>)" by blast
    with assms eq show ?thesis
      by (cases "cid' = cid") (auto simp: enrolled_def)
  qed
qed

lemma enroll_all_preserves_enrolled:
  "enrolled k cid db \<Longrightarrow> enrolled k cid (enroll_all rs db)"
proof (induction rs arbitrary: db)
  case Nil
  then show ?case by simp
next
  case (Cons r rs)
  obtain u cid' where r: "r = (u, cid')" by (cases r)
  show ?case unfolding r enroll_all.simps
    by (rule Cons.IH) (rule enroll_preserves_enrolled [OF Cons.prems])
qed

lemma enrolled_again:
  "enrolled (uid u) cid db \<Longrightarrow>
   enroll u cid db = (Inl (Failure 400 ''Already enrolled in this course''), db)"
  by (auto simp: enrolled_def enroll_def)

text \<open>The route's test against a finite capacity: the roster is strictly below it.\<close>

lemma not_full_finite:
  "\<not> js_ge (Num (of_nat n)) (Num q) \<Longrightarrow> of_nat n < q"
  by simp

text \<open>
  Below a whole capacity there is room for one more: this is where the capacity has to
  be a whole number.
\<close>

lemma whole_room_for_one:
  assumes "whole cap" and "\<not> js_ge (Num (of_nat n)) cap"
  shows "js_ge cap (Num (of_nat (Suc n)))"
proof (cases cap)
  case (Num q)
  with assms(1) have q: "q = of_int \<lfloor>q\<rfloor>" by simp
  from assms(2) Num have "of_nat n < q" by simp
  with q have "(of_int (int n) :: rat) < of_int \<lfloor>q\<rfloor>" by simp
  then have "int n < \<lfloor>q\<rfloor>" by (simp only: of_int_less_iff)
  then have "int (Suc n) \<le> \<lfloor>q\<rfloor>" by simp
  then have "(of_int (int (Suc n)) :: rat) \<le> of_int \<lfloor>q\<rfloor>" by (simp only: of_int_le_iff)
  with q have "of_nat (Suc n) \<le> q" by simp
  with Num show ?thesis by simp
qed (use assms in simp_all)

lemma enroll_preserves_capacity:
  assumes "\<forall>c\<in>ran db. capacity_kept c"
  shows "\<forall>c\<in>ran (snd (enroll u cid db)). capacity_kept c"
proof -
  obtain r db' where eq: "enroll u cid db = (r, db')" by (cases "enroll u cid db")
  from enroll_cases [OF eq] show ?thesis
  proof
    assume "db' = db \<and> (\<exists>e. r = Inl e)"
    with assms eq show ?thesis by simp
  next
    assume "\<exists>c. db cid = Some c \<and> course_isActive c \<and> uid u \<notin> set (students c) \<and>
        \<not> js_ge (Num (of_nat (length (students c)))) (maxStudents c) \<and>
        r = Inr ''Enrolled successfully'' \<and>
        db' = db(cid \<mapsto> c\<lparr>students := students c @ [uid u]\<rparr>)"
    then obtain c where c: "db cid = Some c"
      "\<not> js_ge (Num (of_nat (length (students c)))) (maxStudents c)"
      "db' = db(cid \<mapsto> c\<lparr>students := students c @ [uid u]\<rparr>)" by blast
    from c(1) assms have w: "whole (maxStudents c)" by (auto simp: ran_def capacity_kept_def)
    from whole_room_for_one [OF w c(2)]
    have new: "capacity_kept (c\<lparr>students := students c @ [uid u]\<rparr>)"
      using w by (simp add: capacity_kept_def within_capacity_def)
    show ?thesis
    proof
      fix x assume "x \<in> ran (snd (enroll u cid db))"
      then obtain i where "db' i = Some x" using eq by (auto simp: ran_def)
      then show "capacity_kept x" using new assms c(3)
        by (cases "i = cid") (auto simp: ran_def)
    qed
  qed
qed

lemma enroll_all_preserves_capacity:
  "\<forall>c\<in>ran db. capacity_kept c \<Longrightarrow> \<forall>c\<in>ran (enroll_all rs db). capacity_kept c"
proof (induction rs arbitrary: db)
  case Nil
  then show ?case by simp
next
  case (Cons r rs)
  obtain u cid' where r: "r = (u, cid')" by (cases r)
  show ?case unfolding r enroll_all.simps
    by (rule Cons.IH) (rule enroll_preserves_capacity [OF Cons.prems])
qed

text \<open>
  C9, as stated, fails.  The course \<open>seminar\<close> has capacity \<open>5/2\<close> and two students,
  so its roster is within capacity; the roster is not yet at the capacity, the enroll
  succeeds, and the roster of three exceeds the capacity.
\<close>

theorem enroll_fractional_capacity:
  "within_capacity seminar \<and>
   enroll alice 4 [4 \<mapsto> seminar] =
     (Inr ''Enrolled successfully'', [4 \<mapsto> seminar\<lparr>students := [3, 4, 2]\<rparr>]) \<and>
   \<not> within_capacity (seminar\<lparr>students := [3, 4, 2]\<rparr>)"
  by (simp add: within_capacity_def enroll_def seminar_def alice_def)

text \<open>
  C9, amended.  When enroll succeeds, the course is stored and active, the caller was not
  on its roster, the route's test \<open>length >= maxStudents\<close> was false, which for a
  finite capacity says that the roster was strictly below it, and the caller is
  appended to the roster; when the capacity is a whole number the new roster is within
  capacity.  After that, and after any further run \<open>rs\<close> of enroll requests, an enroll
  by the same caller on the same course is answered with 400 ``Already enrolled in this
  course'' and leaves the store, and so the roster, as it was.  And a store in which
  every capacity is a whole number and every roster is within capacity stays so under any
  run of enroll requests.
\<close>

theorem enroll_once_within_capacity:
  "(\<forall>m db'. enroll u cid db = (Inr m, db') \<longrightarrow>
      (\<exists>c. db cid = Some c \<and> course_isActive c \<and> uid u \<notin> set (students c) \<and>
           \<not> js_ge (Num (of_nat (length (students c)))) (maxStudents c) \<and>
           (\<forall>q. maxStudents c = Num q \<longrightarrow> of_nat (length (students c)) < q) \<and>
           db' = db(cid \<mapsto> c\<lparr>students := students c @ [uid u]\<rparr>) \<and>
           (whole (maxStudents c) \<longrightarrow>
              within_capacity (c\<lparr>students := students c @ [uid u]\<rparr>))) \<and>
      enroll u cid (enroll_all rs db') =
        (Inl (Failure 400 ''Already enrolled in this course''), enroll_all rs db')) \<and>
   ((\<forall>c\<in>ran db0. within_capacity c \<and> whole (maxStudents c)) \<longrightarrow>
    (\<forall>c\<in>ran (enroll_all rs0 db0). within_capacity c))"
proof (intro conjI allI impI)
  fix m db' assume ok: "enroll u cid db = (Inr m, db')"
  from enroll_cases [OF ok] obtain c where
    c: "db cid = Some c" "course_isActive c" "uid u \<notin> set (students c)"
       "\<not> js_ge (Num (of_nat (length (students c)))) (maxStudents c)"
       "db' = db(cid \<mapsto> c\<lparr>students := students c @ [uid u]\<rparr>)"
    by auto
  have fin: "\<forall>q. maxStudents c = Num q \<longrightarrow> of_nat (length (students c)) < q"
    using c(4) by auto
  have room: "whole (maxStudents c) \<longrightarrow>
      within_capacity (c\<lparr>students := students c @ [uid u]\<rparr>)"
    using whole_room_for_one [OF _ c(4)] by (simp add: within_capacity_def)
  from c fin room
  show "\<exists>c. db cid = Some c \<and> course_isActive c \<and> uid u \<notin> set (students c) \<and>
           \<not> js_ge (Num (of_nat (length (students c)))) (maxStudents c) \<and>
           (\<forall>q. maxStudents c = Num q \<longrightarrow> of_nat (length (students c)) < q) \<and>
           db' = db(cid \<mapsto> c\<lparr>students := students c @ [uid u]\<rparr>) \<and>
           (whole (maxStudents c) \<longrightarrow>
              within_capacity (c\<lparr>students := students c @ [uid u]\<rparr>))"
    by blast
  from c have "enrolled (uid u) cid db'" by (simp add: enrolled_def)
  then have "enrolled (uid u) cid (enroll_all rs db')"
    by (rule enroll_all_preserves_enrolled)
  then show "enroll u cid (enroll_all rs db') =
        (Inl (Failure 400 ''Already enrolled in this course''), enroll_all rs db')"
    by (rule enrolled_again)
next
  assume "\<forall>c\<in>ran db0. within_capacity c \<and> whole (maxStudents c)"
  then have "\<forall>c\<in>ran db0. capacity_kept c" by (simp add: capacity_kept_def)
  then have "\<forall>c\<in>ran (enroll_all rs0 db0). capacity_kept c"
    by (rule enroll_all_preserves_capacity)
  then show "\<forall>c\<in>ran (enroll_all rs0 db0). within_capacity c"
    by (simp add: capacity_kept_def)
qed

theorem enroll_once_within_capacity_witness:
  "enroll alice 4 [4 \<mapsto> algebra] =
     (Inr ''Enrolled successfully'', [4 \<mapsto> algebra\<lparr>students := [3, 2]\<rparr>]) \<and>
   enroll alice 4 (enroll_all [(root, 4)] [4 \<mapsto> algebra\<lparr>students := [3, 2]\<rparr>]) =
     (Inl (Failure 400 ''Already enrolled in this course''),
      enroll_all [(root, 4)] [4 \<mapsto> algebra\<lparr>students := [3, 2]\<rparr>]) \<and>
   enroll_all [(root, 4)] [4 \<mapsto> algebra\<lparr>students := [3, 2]\<rparr>] =
     [4 \<mapsto> algebra\<lparr>students := [3, 2]\<rparr>] \<and>
   within_capacity (the (enroll_all [(alice, 4), (root, 4)] [4 \<mapsto> algebra] 4))"
proof -
  note defs = enroll_def algebra_def alice_def root_def
  have ok: "enroll alice 4 [4 \<mapsto> algebra] =
     (Inr ''Enrolled successfully'', [4 \<mapsto> algebra\<lparr>students := [3, 2]\<rparr>])"
    by (simp add: defs)
  have full: "enroll_all [(root, 4)] [4 \<mapsto> algebra\<lparr>students := [3, 2]\<rparr>] =
     [4 \<mapsto> algebra\<lparr>students := [3, 2]\<rparr>]"
    by (simp add: defs)
  have inv0: "\<forall>c\<in>ran [4 \<mapsto> algebra]. within_capacity c \<and> whole (maxStudents c)"
    by (simp add: within_capacity_def algebra_def)
  have dom: "\<exists>c. enroll_all [(alice, 4), (root, 4)] [4 \<mapsto> algebra] 4 = Some c"
    by (simp add: defs)
  note t = enroll_once_within_capacity [where u = alice and cid = 4
      and db = "[4 \<mapsto> algebra]" and rs = "[(root, 4)]" and db0 = "[4 \<mapsto> algebra]"
      and ?rs0.0 = "[(alice, 4), (root, 4)]"]
  from t ok have again:
    "enroll alice 4 (enroll_all [(root, 4)] [4 \<mapsto> algebra\<lparr>students := [3, 2]\<rparr>]) =
     (Inl (Failure 400 ''Already enrolled in this course''),
      enroll_all [(root, 4)] [4 \<mapsto> algebra\<lparr>students := [3, 2]\<rparr>])"
    by blast
  from t inv0 have
    "\<forall>c\<in>ran (enroll_all [(alice, 4), (root, 4)] [4 \<mapsto> algebra]). within_capacity c"
    by blast
  with dom have "within_capacity (the (enroll_all [(alice, 4), (root, 4)] [4 \<mapsto> algebra] 4))"
    by (auto simp: ran_def)
  with ok again full show ?thesis by blast
qed

section \<open>Reading notes and commenting\<close>

text \<open>When every entry resolves, the populated \<open>some\<close> is membership of the reference.\<close>

lemma some_user_equals_resolved:
  "\<forall>a \<in> set al. user a \<in> users \<Longrightarrow>
   some_user_equals k (map (\<lambda>access. populate users (user access)) al) =
     Some (k \<in> user ` set al)"
  by (induction al) (auto simp: populate_def)

text \<open>An entry that does not resolve, ahead of any entry of the caller, throws.\<close>

lemma some_user_equals_dangling:
  "user a \<notin> users \<Longrightarrow> k \<notin> user ` set pre \<Longrightarrow> \<forall>b \<in> set pre. user b \<in> users \<Longrightarrow>
   some_user_equals k (map (\<lambda>access. populate users (user access)) (pre @ a # post)) = None"
  by (induction pre) (auto simp: populate_def)

lemma get_note_resolved:
  assumes "db nid = Some n" "resolved users n"
  shows "get_note users u nid db =
    (if spec_canRead u n
     then (Inr (n\<lparr>viewCount := js_add_one (viewCount n)\<rparr>),
           db(nid \<mapsto> n\<lparr>viewCount := js_add_one (viewCount n)\<rparr>))
     else (Inl (Failure 403 ''Access denied''), db))"
proof -
  from assms(2) have al: "\<forall>a \<in> set (accessList n). user a \<in> users"
    and au: "populate users (author n) = Some (author n)"
    by (auto simp: resolved_def populate_def)
  note sm = some_user_equals_resolved [OF al, of "uid u"]
  show ?thesis
  proof (cases "role u \<noteq> ''admin'' \<and> \<not> isPublic n")
    case False
    then have "spec_canRead u n" by (auto simp: spec_canRead_def)
    with False assms(1) show ?thesis by (auto simp: get_note_def Let_def)
  next
    case outer: True
    show ?thesis
    proof (cases "uid u \<in> user ` set (accessList n)")
      case True
      then have "spec_canRead u n" by (simp add: spec_canRead_def)
      with True outer assms(1) show ?thesis by (simp add: get_note_def Let_def sm)
    next
      case False
      with outer have "spec_canRead u n = (author n = uid u)"
        by (auto simp: spec_canRead_def)
      with False outer assms(1) show ?thesis by (simp add: get_note_def Let_def sm au)
    qed
  qed
qed

lemma denied_iff_not_canRead:
  "(role u \<noteq> ''admin'' \<and> \<not> isPublic n \<and>
    \<not> list_ex (\<lambda>access. user access = uid u) (accessList n) \<and> author n \<noteq> uid u) =
   (\<not> spec_canRead u n)"
  by (force simp: spec_canRead_def list_ex_iff)

lemma add_comment_allowed:
  "db nid = Some n \<Longrightarrow> spec_canRead u n \<Longrightarrow>
   add_comment u nid cid msg db =
     (Inr \<lparr>comment_id = cid, comment_user = uid u, comment_content = msg\<rparr>,
      db(nid \<mapsto> n\<lparr>comments := comments n @
           [\<lparr>comment_id = cid, comment_user = uid u, comment_content = msg\<rparr>]\<rparr>))"
  by (simp add: add_comment_def denied_iff_not_canRead Let_def)

lemma add_comment_denied:
  "db nid = Some n \<Longrightarrow> \<not> spec_canRead u n \<Longrightarrow>
   add_comment u nid cid msg db = (Inl (Failure 403 ''Access denied''), db)"
  by (simp add: add_comment_def denied_iff_not_canRead)

text \<open>
  With every user reference of the note resolving, the read and the comment are gated by
  \<open>spec_canRead\<close>.
\<close>

lemma read_gated_when_resolved:
  assumes "db nid = Some n" and "resolved users n"
  shows "(spec_canRead u n \<longrightarrow>
            get_note users u nid db =
              (Inr (n\<lparr>viewCount := js_add_one (viewCount n)\<rparr>),
               db(nid \<mapsto> n\<lparr>viewCount := js_add_one (viewCount n)\<rparr>)) \<and>
            (\<exists>c db'. add_comment u nid cid msg db = (Inr c, db'))) \<and>
         (\<not> spec_canRead u n \<longrightarrow>
            get_note users u nid db = (Inl (Failure 403 ''Access denied''), db) \<and>
            add_comment u nid cid msg db = (Inl (Failure 403 ''Access denied''), db))"
  using assms
  by (simp add: get_note_resolved add_comment_allowed add_comment_denied)

text \<open>
  C2 at a failing input.  The restricted note \<open>dangling\<close> lists a user that the user
  collection does not hold, and after it the caller, who is not admin.  The caller's
  reference is in the access list, so \<open>spec_canRead\<close> holds and posting a comment
  succeeds; the read, which compares the populated references, throws on the first
  entry and is answered with 500 ``Server error'', the note unread and the store as it
  was.
\<close>

theorem read_throws_on_dangling_reference:
  "spec_canRead alice dangling \<and>
   get_note registered alice 8 [8 \<mapsto> dangling] =
     (Inl (Failure 500 ''Server error''), [8 \<mapsto> dangling]) \<and>
   add_comment alice 8 30 ''Thanks'' [8 \<mapsto> dangling] =
     (Inr \<lparr>comment_id = 30, comment_user = 2, comment_content = ''Thanks''\<rparr>,
      [8 \<mapsto> dangling\<lparr>comments :=
         [\<lparr>comment_id = 30, comment_user = 2, comment_content = ''Thanks''\<rparr>]\<rparr>])"
proof -
  have c: "spec_canRead alice dangling"
    by (simp add: spec_canRead_def alice_def dangling_def)
  have g: "get_note registered alice 8 [8 \<mapsto> dangling] =
     (Inl (Failure 500 ''Server error''), [8 \<mapsto> dangling])"
    by (simp add: get_note_def Let_def populate_def registered_def alice_def dangling_def
        lecture_def)
  have s: "[8 \<mapsto> dangling] (8::nat) = Some dangling" by simp
  have cm: "comments dangling = []" by (simp add: dangling_def lecture_def)
  from add_comment_allowed [where db = "[8 \<mapsto> dangling]" and nid = 8, OF s c,
      where cid = 30 and msg = "''Thanks''"]
  have a: "add_comment alice 8 30 ''Thanks'' [8 \<mapsto> dangling] =
     (Inr \<lparr>comment_id = 30, comment_user = 2, comment_content = ''Thanks''\<rparr>,
      [8 \<mapsto> dangling\<lparr>comments :=
         [\<lparr>comment_id = 30, comment_user = 2, comment_content = ''Thanks''\<rparr>]\<rparr>])"
    by (simp add: cm alice_def)
  show ?thesis
    apply (intro conjI)
      apply (rule c)
     apply (rule g)
    apply (rule a)
    done
qed

lemma get_note_success:
  assumes "get_note users u nid db = (Inr n', db')"
  shows "\<exists>n. db nid = Some n \<and> n' = n\<lparr>viewCount := js_add_one (viewCount n)\<rparr> \<and>
             db' = db(nid \<mapsto> n')"
  using assms
  by (auto simp: get_note_def Let_def split: option.splits if_splits bool.splits)

text \<open>
  C3, as stated, fails.  The view counter of the note \<open>saturated\<close> is \<open>2^53\<close>.  The
  read by an administrative caller succeeds, and the counter it stores and returns is
  the binary64 sum of \<open>2^53\<close> and \<open>1\<close>, which is \<open>2^53\<close>: the counter is not
  increased and the store is the same after the read.
\<close>

theorem read_at_saturated_counter:
  "viewCount saturated = Num (2 ^ 53) \<and>
   get_note registered root 8 [8 \<mapsto> saturated] = (Inr saturated, [8 \<mapsto> saturated])"
proof -
  have v: "viewCount saturated = Num (2 ^ 53)" by (simp add: saturated_def)
  have same: "saturated\<lparr>viewCount := js_add_one (viewCount saturated)\<rparr> = saturated"
    unfolding v js_add_one_saturates by (simp add: saturated_def)
  have "get_note registered root 8 [8 \<mapsto> saturated] =
      (Inr (saturated\<lparr>viewCount := js_add_one (viewCount saturated)\<rparr>),
       [8 \<mapsto> saturated\<lparr>viewCount := js_add_one (viewCount saturated)\<rparr>])"
    by (simp add: get_note_def Let_def root_def)
  then have g: "get_note registered root 8 [8 \<mapsto> saturated] =
      (Inr saturated, [8 \<mapsto> saturated])"
    unfolding same .
  from v g show ?thesis by (rule conjI)
qed

text \<open>
  C3, amended.  A successful read of a note stores and returns the note with the
  binary64 sum of its view counter and one.  When the counter is a whole number \<open>k\<close>
  with \<open>\<bar>k + 1\<bar> \<le> 2^53\<close>, the first read increases it by exactly one and changes
  the store; when also \<open>\<bar>k + 2\<bar> \<le> 2^53\<close>, two successful reads (by any callers)
  leave it at the baseline plus two, and the second read changes the store again.
\<close>

theorem read_counts_views:
  assumes "get_note users u nid db = (Inr n1, db1)"
    and "get_note users u2 nid db1 = (Inr n2, db2)"
  shows "\<exists>n. db nid = Some n \<and> db1 nid = Some n1 \<and> db2 nid = Some n2 \<and>
             viewCount n1 = js_add_one (viewCount n) \<and>
             viewCount n2 = js_add_one (viewCount n1) \<and>
             (\<forall>k. viewCount n = Num (of_int k) \<and> \<bar>k + 1\<bar> \<le> 2 ^ 53 \<longrightarrow>
                  viewCount n1 = Num (of_int (k + 1)) \<and> db1 \<noteq> db) \<and>
             (\<forall>k. viewCount n = Num (of_int k) \<and> \<bar>k + 1\<bar> \<le> 2 ^ 53 \<and> \<bar>k + 2\<bar> \<le> 2 ^ 53 \<longrightarrow>
                  viewCount n2 = Num (of_int (k + 2)) \<and> db2 \<noteq> db1)"
proof -
  from get_note_success [OF assms(1)] obtain n where
    n: "db nid = Some n" "n1 = n\<lparr>viewCount := js_add_one (viewCount n)\<rparr>"
       "db1 = db(nid \<mapsto> n1)"
    by blast
  from get_note_success [OF assms(2)] obtain m where
    m: "db1 nid = Some m" "n2 = m\<lparr>viewCount := js_add_one (viewCount m)\<rparr>"
       "db2 = db1(nid \<mapsto> n2)"
    by blast
  from n m have mn: "m = n1" by simp
  have v1: "viewCount n1 = js_add_one (viewCount n)" using n by simp
  have v2: "viewCount n2 = js_add_one (viewCount n1)" using m mn by simp
  have one: "viewCount n1 = Num (of_int (k + 1)) \<and> db1 \<noteq> db"
    if "viewCount n = Num (of_int k) \<and> \<bar>k + 1\<bar> \<le> 2 ^ 53" for k
  proof -
    from that v1 have c: "viewCount n1 = Num (of_int (k + 1))"
      by (simp only: js_add_one_whole)
    have "(of_int (k + 1) :: rat) \<noteq> of_int k" by simp
    with c that have "viewCount n1 \<noteq> viewCount n" by simp
    then have "n1 \<noteq> n" by auto
    then have "db1 nid \<noteq> db nid" using n(1,3) by simp
    then have "db1 \<noteq> db" by auto
    with c show ?thesis by simp
  qed
  have two: "viewCount n2 = Num (of_int (k + 2)) \<and> db2 \<noteq> db1"
    if h: "viewCount n = Num (of_int k) \<and> \<bar>k + 1\<bar> \<le> 2 ^ 53 \<and> \<bar>k + 2\<bar> \<le> 2 ^ 53" for k
  proof -
    from h one [of k] have c1: "viewCount n1 = Num (of_int (k + 1))" by simp
    from h have "\<bar>(k + 1) + 1\<bar> \<le> 2 ^ 53" by (simp add: add.assoc)
    from js_add_one_whole [OF this] c1 v2
    have c2: "viewCount n2 = Num (of_int (k + 2))" by (simp add: add.assoc)
    have "(of_int (k + 2) :: rat) \<noteq> of_int (k + 1)" by simp
    with c1 c2 have "viewCount n2 \<noteq> viewCount n1" by simp
    then have "n2 \<noteq> n1" by auto
    then have "db2 nid \<noteq> db1 nid" using m(1,3) mn by simp
    then have "db2 \<noteq> db1" by auto
    with c2 show ?thesis by simp
  qed
  from n(1) m(1,3) mn v1 v2 one two show ?thesis by auto
qed

theorem read_counts_views_witness:
  "get_note registered alice 8 [8 \<mapsto> lecture] =
     (Inr (lecture\<lparr>viewCount := Num 1\<rparr>), [8 \<mapsto> lecture\<lparr>viewCount := Num 1\<rparr>]) \<and>
   get_note registered root 8 [8 \<mapsto> lecture\<lparr>viewCount := Num 1\<rparr>] =
     (Inr (lecture\<lparr>viewCount := Num 2\<rparr>), [8 \<mapsto> lecture\<lparr>viewCount := Num 2\<rparr>]) \<and>
   viewCount lecture = Num (of_int 0) \<and>
   viewCount (lecture\<lparr>viewCount := Num 1\<rparr>) = Num (of_int (0 + 1)) \<and>
   viewCount (lecture\<lparr>viewCount := Num 2\<rparr>) = Num (of_int (0 + 2)) \<and>
   [8 \<mapsto> lecture\<lparr>viewCount := Num 1\<rparr>] \<noteq> [8::nat \<mapsto> lecture] \<and>
   [8 \<mapsto> lecture\<lparr>viewCount := Num 2\<rparr>] \<noteq> [8::nat \<mapsto> lecture\<lparr>viewCount := Num 1\<rparr>]"
proof -
  have 1: "get_note registered alice 8 [8 \<mapsto> lecture] =
     (Inr (lecture\<lparr>viewCount := Num 1\<rparr>), [8 \<mapsto> lecture\<lparr>viewCount := Num 1\<rparr>])"
    by (simp add: get_note_def Let_def populate_def registered_def alice_def lecture_def
        round_b64_one)
  have 2: "get_note registered root 8 [8 \<mapsto> lecture\<lparr>viewCount := Num 1\<rparr>] =
     (Inr (lecture\<lparr>viewCount := Num 2\<rparr>), [8 \<mapsto> lecture\<lparr>viewCount := Num 2\<rparr>])"
    by (simp add: get_note_def Let_def root_def lecture_def round_b64_two)
  from read_counts_views [OF 1 2] obtain n where
    n: "[8 \<mapsto> lecture] (8::nat) = Some n"
    and a: "\<forall>k. viewCount n = Num (of_int k) \<and> \<bar>k + 1\<bar> \<le> 2 ^ 53 \<longrightarrow>
             viewCount (lecture\<lparr>viewCount := Num 1\<rparr>) = Num (of_int (k + 1)) \<and>
             [8 \<mapsto> lecture\<lparr>viewCount := Num 1\<rparr>] \<noteq> [8::nat \<mapsto> lecture]"
    and b: "\<forall>k. viewCount n = Num (of_int k) \<and> \<bar>k + 1\<bar> \<le> 2 ^ 53 \<and> \<bar>k + 2\<bar> \<le> 2 ^ 53 \<longrightarrow>
             viewCount (lecture\<lparr>viewCount := Num 2\<rparr>) = Num (of_int (k + 2)) \<and>
             [8 \<mapsto> lecture\<lparr>viewCount := Num 2\<rparr>] \<noteq> [8::nat \<mapsto> lecture\<lparr>viewCount := Num 1\<rparr>]"
    by blast
  from n have nl: "n = lecture" by simp
  have v0: "viewCount lecture = Num (of_int 0)" by (simp add: lecture_def)
  have h1: "viewCount n = Num (of_int 0) \<and> \<bar>(0::int) + 1\<bar> \<le> 2 ^ 53"
    unfolding nl v0 by simp
  have h2: "viewCount n = Num (of_int 0) \<and> \<bar>(0::int) + 1\<bar> \<le> 2 ^ 53 \<and> \<bar>(0::int) + 2\<bar> \<le> 2 ^ 53"
    unfolding nl v0 by simp
  from a h1 have c1: "viewCount (lecture\<lparr>viewCount := Num 1\<rparr>) = Num (of_int (0 + 1))"
    and d1: "[8 \<mapsto> lecture\<lparr>viewCount := Num 1\<rparr>] \<noteq> [8::nat \<mapsto> lecture]"
    by blast+
  from b h2 have c2: "viewCount (lecture\<lparr>viewCount := Num 2\<rparr>) = Num (of_int (0 + 2))"
    and d2: "[8 \<mapsto> lecture\<lparr>viewCount := Num 2\<rparr>] \<noteq> [8::nat \<mapsto> lecture\<lparr>viewCount := Num 1\<rparr>]"
    by blast+
  show ?thesis
    apply (intro conjI)
          apply (rule 1)
         apply (rule 2)
        apply (rule v0)
       apply (rule c1)
      apply (rule c2)
     apply (rule d1)
    apply (rule d2)
    done
qed

section \<open>Updating notes\<close>







section \<open>Lookup in the access list\<close>





section \<open>The note list\<close>

text \<open>
  For a non-administrative caller the last assignment to \<open>$or\<close> replaces the search
  conditions: the query is the one built without a search text.
\<close>

lemma build_query_search_overwritten:
  "role u \<noteq> ''admin'' \<Longrightarrow> build_query u course search tgs = build_query u course None tgs"
  by (simp add: build_query_def Let_def)

lemma list_notes_search_ignored:
  "role u \<noteq> ''admin'' \<Longrightarrow>
   list_notes rx u course search tgs coll = list_notes rx u course None tgs coll"
  using build_query_search_overwritten [of u course search tgs]
  by (simp add: list_notes_def)

text \<open>The caller-scoped filter, with no course and no tag filter.\<close>

lemma list_notes_non_admin:
  "role u \<noteq> ''admin'' \<Longrightarrow>
   set (list_notes rx u None search None coll) =
     {n \<in> set coll. isPublic n \<or> (\<exists>a \<in> set (accessList n). user a = uid u) \<or>
        author n = uid u}"
proof -
  assume na: "role u \<noteq> ''admin''"
  have q: "build_query u None search None =
      \<lparr>q_course = None, q_or = Some [IsPublic True, AccessListUser (uid u), Author (uid u)],
        q_tags_in = None\<rparr>"
    using na by (simp add: build_query_def Let_def)
  have m: "matches rx (build_query u None search None) n =
      (isPublic n \<or> (\<exists>a \<in> set (accessList n). user a = uid u) \<or> author n = uid u)" for n
    unfolding q by (simp add: matches_def list_ex_iff)
  show ?thesis by (simp add: list_notes_def m)
qed

text \<open>For an administrative caller the search conditions stay in the query.\<close>

lemma list_notes_admin_search:
  "role u = ''admin'' \<Longrightarrow> s \<noteq> [] \<Longrightarrow>
   set (list_notes rx u None (Some s) None coll) =
     {n \<in> set coll. rx s (title n) \<or> rx s (content n)}"
proof -
  assume ad: "role u = ''admin''" and s: "s \<noteq> []"
  have q: "build_query u None (Some s) None =
      \<lparr>q_course = None, q_or = Some [TitleRegex s, ContentRegex s], q_tags_in = None\<rparr>"
    using ad s by (simp add: build_query_def Let_def)
  have m: "matches rx (build_query u None (Some s) None) n =
      (rx s (title n) \<or> rx s (content n))" for n
    unfolding q by (simp add: matches_def)
  show ?thesis by (simp add: list_notes_def m)
qed

text \<open>
  C7 at a failing input.  A non-administrative caller lists the notes with the search
  text \<open>zebra\<close>; the collection holds one public note.  Whatever the store's regular
  expression match \<open>rx\<close> answers for the note's title and content, also when neither
  matches, the note is in the result: the text filter is not applied together with the
  caller-scoped filter.
\<close>

theorem list_notes_search_dropped:
  "list_notes rx alice None (Some ''zebra'') None [open_lecture] = [open_lecture]"
  by (simp add: list_notes_def build_query_def matches_def Let_def alice_def
      open_lecture_def lecture_def)

end
